theory Spec2Isabelle
  imports Complex_Main "HOL-Library.AList" "HOL-Library.Log_Nat"
begin

section \<open>The trading account of accounts.py\<close>

text \<open>
  The module \<^verbatim>\<open>accounts.py\<close> holds a price lookup (\<^verbatim>\<open>get_share_price\<close>) and the class
  \<^verbatim>\<open>Account\<close> with four mutating methods and some accessors. The embedding below follows
  the module method by method.

  Conventions of the model:
  \<^item> Amounts of money are Python floats, that is IEEE 754 binary64 numbers. A float is a
    finite value, an infinity or NaN; every arithmetic operation rounds its exact result
    to the nearest binary64 number, ties to even, and overflows to an infinity. Python's
    integers are unbounded; they are converted to float where the source mixes them with
    floats, and the conversion raises \<^verbatim>\<open>OverflowError\<close> when the integer is out of range.
    The sign of zero is not modelled (the module never divides or prints a zero).
  \<^item> A symbol is an ASCII string; \<^verbatim>\<open>str.upper\<close> maps the letters a-z to A-Z and leaves
    every other character alone.
  \<^item> \<^verbatim>\<open>datetime.datetime.now()\<close> is an input of each mutating call (the argument
    \<open>now\<close>).
  \<^item> A method that raises leaves the object in the state it had at the raise. Each method
    therefore returns a pair: the outcome (\<open>Inl\<close> the exception, \<open>Inr ()\<close> a normal
    return) and the account after the call.
  \<^item> A \<^verbatim>\<open>dict\<close> is an association list in insertion order, as \<^verbatim>\<open>dict.items()\<close> iterates
    it. Storing under an existing key keeps its position, storing under a new key appends
    (\<^const>\<open>AList.update\<close>), \<^verbatim>\<open>del\<close> removes the key (\<^const>\<open>AList.delete\<close>).
\<close>

subsection \<open>Floats\<close>

text \<open>
  A finite float is given by its exact rational value. The binary64 numbers are the
  rationals that \<open>round_to_double\<close> leaves unchanged (\<open>is_double\<close>).
\<close>

datatype pyfloat = Fin rat | PInf | NInf | NaN

text \<open>The exponent \<open>e\<close> with \<open>2^e \<le> x < 2^(e+1)\<close>, for a positive \<open>x\<close>.\<close>

definition ilog2 :: "rat \<Rightarrow> int" where
  "ilog2 x =
     (case quotient_of x of (n, d) \<Rightarrow>
        let k = bitlen n - bitlen d in if 2 powi k \<le> x then k else k - 1)"

definition round_half_even :: "rat \<Rightarrow> int" where
  "round_half_even x =
     (let f = \<lfloor>x\<rfloor>; d = x - of_int f in
      if d < 1 / 2 then f else if 1 / 2 < d then f + 1 else if even f then f else f + 1)"

text \<open>
  The spacing of the binary64 numbers around a positive \<open>x\<close> is \<open>2^(e - 52)\<close>, and
  \<open>2^(-1074)\<close> in the subnormal range. A positive \<open>x\<close> is rounded to the nearest multiple
  of the spacing; a result of \<open>2^1024\<close> or more is an overflow.
\<close>

definition ulp_exponent :: "rat \<Rightarrow> int" where
  "ulp_exponent x = max (ilog2 x) (- 1022) - 52"

definition round_magnitude :: "rat \<Rightarrow> rat" where
  "round_magnitude x =
     of_int (round_half_even (x / 2 powi ulp_exponent x)) * 2 powi ulp_exponent x"

definition round_to_double :: "rat \<Rightarrow> pyfloat" where
  "round_to_double x =
     (if x = 0 then Fin 0
      else if 0 < x
        then (let y = round_magnitude x in if 0 < y \<and> 1024 \<le> ilog2 y then PInf else Fin y)
      else (let y = round_magnitude (- x) in
            if 0 < y \<and> 1024 \<le> ilog2 y then NInf else Fin (- y)))"

definition is_double :: "rat \<Rightarrow> bool" where
  "is_double r \<longleftrightarrow> round_to_double r = Fin r"

fun float_neg :: "pyfloat \<Rightarrow> pyfloat" where
  "float_neg (Fin x) = Fin (- x)"
| "float_neg PInf = NInf"
| "float_neg NInf = PInf"
| "float_neg NaN = NaN"

fun float_add :: "pyfloat \<Rightarrow> pyfloat \<Rightarrow> pyfloat" where
  "float_add NaN b = NaN"
| "float_add a NaN = NaN"
| "float_add PInf NInf = NaN"
| "float_add NInf PInf = NaN"
| "float_add PInf b = PInf"
| "float_add a PInf = PInf"
| "float_add NInf b = NInf"
| "float_add a NInf = NInf"
| "float_add (Fin x) (Fin y) = round_to_double (x + y)"

definition float_sub :: "pyfloat \<Rightarrow> pyfloat \<Rightarrow> pyfloat" where
  "float_sub a b = float_add a (float_neg b)"

fun float_mul :: "pyfloat \<Rightarrow> pyfloat \<Rightarrow> pyfloat" where
  "float_mul NaN b = NaN"
| "float_mul a NaN = NaN"
| "float_mul (Fin x) (Fin y) = round_to_double (x * y)"
| "float_mul (Fin x) PInf = (if x = 0 then NaN else if 0 < x then PInf else NInf)"
| "float_mul (Fin x) NInf = (if x = 0 then NaN else if 0 < x then NInf else PInf)"
| "float_mul PInf (Fin y) = (if y = 0 then NaN else if 0 < y then PInf else NInf)"
| "float_mul NInf (Fin y) = (if y = 0 then NaN else if 0 < y then NInf else PInf)"
| "float_mul PInf PInf = PInf"
| "float_mul PInf NInf = NInf"
| "float_mul NInf PInf = NInf"
| "float_mul NInf NInf = PInf"

text \<open>Comparisons: every comparison with NaN is false.\<close>

fun float_le :: "pyfloat \<Rightarrow> pyfloat \<Rightarrow> bool" where
  "float_le NaN b = False"
| "float_le a NaN = False"
| "float_le NInf b = True"
| "float_le a PInf = True"
| "float_le (Fin x) (Fin y) = (x \<le> y)"
| "float_le a b = False"

fun float_lt :: "pyfloat \<Rightarrow> pyfloat \<Rightarrow> bool" where
  "float_lt NaN b = False"
| "float_lt a NaN = False"
| "float_lt NInf NInf = False"
| "float_lt NInf b = True"
| "float_lt PInf b = False"
| "float_lt a PInf = True"
| "float_lt (Fin x) (Fin y) = (x < y)"
| "float_lt a b = False"

subsection \<open>Values, exceptions, records\<close>

type_synonym timestamp = nat

text \<open>
  The \<^verbatim>\<open>amount\<close> arguments are annotated \<^verbatim>\<open>float\<close> and the \<^verbatim>\<open>quantity\<close> arguments
  \<^verbatim>\<open>int\<close>, but Python does not enforce annotations (\<^verbatim>\<open>app.py\<close> itself deposits the
  integer 10000). The arguments are therefore Python values. \<^verbatim>\<open>bool\<close> is a subclass of
  \<^verbatim>\<open>int\<close>: \<^verbatim>\<open>True\<close> is the integer 1 and \<^verbatim>\<open>False\<close> the integer 0 in every comparison
  and arithmetic operation.
\<close>

datatype pyval = PyInt int | PyBool bool | PyFloat pyfloat | PyStr string | PyNone

fun isinstance_int :: "pyval \<Rightarrow> bool" where
  "isinstance_int (PyInt n) = True"
| "isinstance_int (PyBool b) = True"
| "isinstance_int v = False"

fun int_value :: "pyval \<Rightarrow> int" where
  "int_value (PyInt n) = n"
| "int_value (PyBool b) = (if b then 1 else 0)"
| "int_value v = 0"

text \<open>
  Exceptions carry the values that the source interpolates into the message, not the
  formatted text. \<open>InsufficientFundsError\<close> has two message shapes: the withdrawal
  (no trade, amount, balance) and the purchase (quantity and symbol, cost, balance).
  \<open>InsufficientSharesError\<close> carries quantity, symbol and the shares owned;
  \<open>InvalidSymbolError\<close> the symbol as \<^verbatim>\<open>get_share_price\<close> received it.
  \<open>TypeError\<close> and \<open>OverflowError\<close> are raised by the interpreter: by a comparison
  of a string or \<^verbatim>\<open>None\<close> with a number, and by the conversion of an integer that is too
  large to a float.
\<close>

datatype error =
    ValueError string
  | KeyError string
  | TypeError
  | OverflowError
  | InsufficientFundsError "(int \<times> string) option" pyfloat pyfloat
  | InsufficientSharesError int string int
  | InvalidSymbolError string

type_synonym outcome = "error + unit"

text \<open>
  \<^verbatim>\<open>float(n)\<close> for an integer, as float arithmetic with an integer operand and the format
  \<^verbatim>\<open>:.2f\<close> apply it: correctly rounded, \<^verbatim>\<open>OverflowError\<close> when the result is not finite.
\<close>

definition float_of_int :: "int \<Rightarrow> error + pyfloat" where
  "float_of_int n =
     (case round_to_double (of_int n) of Fin r \<Rightarrow> Inr (Fin r) | f \<Rightarrow> Inl OverflowError)"

text \<open>The float operand that an arithmetic operation with a float makes of a value.\<close>

fun as_float :: "pyval \<Rightarrow> error + pyfloat" where
  "as_float (PyInt n) = float_of_int n"
| "as_float (PyBool b) = Inr (Fin (if b then 1 else 0))"
| "as_float (PyFloat f) = Inr f"
| "as_float v = Inl TypeError"

text \<open>
  Python compares an integer with a float, or with the integer 0, by their exact values,
  without converting it: the comparisons of \<^verbatim>\<open>amount\<close> use the exact value.
\<close>

fun exact_value :: "pyval \<Rightarrow> error + pyfloat" where
  "exact_value (PyInt n) = Inr (Fin (of_int n))"
| "exact_value (PyBool b) = Inr (Fin (if b then 1 else 0))"
| "exact_value (PyFloat f) = Inr f"
| "exact_value v = Inl TypeError"

text \<open>
  A transaction record stores \<^verbatim>\<open>total_value\<close> as the method passed it: the \<^verbatim>\<open>amount\<close>
  argument itself for a deposit or withdrawal, the computed float for a trade. A quantity
  \<^verbatim>\<open>True\<close> is recorded as the integer 1 it equals.
\<close>

record transaction =
  timestamp :: timestamp
  trans_type :: string
  symbol :: "string option"
  quantity :: "int option"
  price_per_share :: "pyfloat option"
  total_value :: pyval

record account =
  user_id :: string
  cash_balance :: pyfloat
  total_deposits :: pyfloat
  holdings :: "(string \<times> int) list"
  transactions :: "transaction list"

subsection \<open>Strings and dictionaries\<close>

definition upper_char :: "char \<Rightarrow> char" where
  "upper_char c =
     (let n = (of_char c :: nat) in if 97 \<le> n \<and> n \<le> 122 then char_of (n - 32) else c)"

definition upper :: "string \<Rightarrow> string" where
  "upper s = map upper_char s"

text \<open>\<^verbatim>\<open>d.get(k, default)\<close>\<close>

definition dict_get :: "('k \<times> 'v) list \<Rightarrow> 'k \<Rightarrow> 'v \<Rightarrow> 'v" where
  "dict_get d k dflt = (case map_of d k of None \<Rightarrow> dflt | Some v \<Rightarrow> v)"

subsection \<open>The price lookup\<close>

definition prices :: "(string \<times> pyfloat) list" where
  "prices = [(''AAPL'', Fin 150), (''GOOGL'', Fin 2500), (''TSLA'', Fin 700)]"

definition get_share_price :: "string \<Rightarrow> error + pyfloat" where
  "get_share_price symb =
     (let normalized_symbol = upper symb in
      case map_of prices normalized_symbol of
        None \<Rightarrow> Inl (InvalidSymbolError symb)
      | Some p \<Rightarrow> Inr p)"

subsection \<open>The account\<close>

definition Account :: "string \<Rightarrow> account" where
  "Account uid =
     \<lparr>user_id = uid, cash_balance = Fin 0, total_deposits = Fin 0, holdings = [],
      transactions = []\<rparr>"

definition record_transaction ::
  "timestamp \<Rightarrow> string \<Rightarrow> pyval \<Rightarrow> string option \<Rightarrow> int option \<Rightarrow> pyfloat option \<Rightarrow>
   account \<Rightarrow> account" where
  "record_transaction now ty tv symb qty pps acc =
     acc\<lparr>transactions := transactions acc @
       [\<lparr>timestamp = now, trans_type = ty, symbol = symb, quantity = qty,
         price_per_share = pps, total_value = tv\<rparr>]\<rparr>"

text \<open>
  \<^verbatim>\<open>deposit\<close>: the comparison \<^verbatim>\<open>amount <= 0\<close> raises \<^verbatim>\<open>TypeError\<close> for a value that is
  not a number; \<^verbatim>\<open>self._cash_balance += amount\<close> converts an integer amount and raises
  \<^verbatim>\<open>OverflowError\<close> before anything is assigned when it is too large.
\<close>

definition deposit :: "timestamp \<Rightarrow> pyval \<Rightarrow> account \<Rightarrow> outcome \<times> account" where
  "deposit now amount acc =
     (case exact_value amount of
        Inl e \<Rightarrow> (Inl e, acc)
      | Inr x \<Rightarrow>
          if float_le x (Fin 0)
            then (Inl (ValueError ''Deposit amount must be a positive number.''), acc)
          else
            case as_float amount of
              Inl e \<Rightarrow> (Inl e, acc)
            | Inr a \<Rightarrow>
                let acc1 = acc\<lparr>cash_balance := float_add (cash_balance acc) a\<rparr>;
                    acc2 = acc1\<lparr>total_deposits := float_add (total_deposits acc1) a\<rparr>
                in (Inr (), record_transaction now ''DEPOSIT'' amount None None None acc2))"

text \<open>
  \<^verbatim>\<open>withdraw\<close>: the message of \<^verbatim>\<open>InsufficientFundsError\<close> formats \<^verbatim>\<open>amount\<close> with \<^verbatim>\<open>:.2f\<close>,
  which converts an integer amount to a float and raises \<^verbatim>\<open>OverflowError\<close> in place of
  the intended exception when it is too large.
\<close>

definition withdraw :: "timestamp \<Rightarrow> pyval \<Rightarrow> account \<Rightarrow> outcome \<times> account" where
  "withdraw now amount acc =
     (case exact_value amount of
        Inl e \<Rightarrow> (Inl e, acc)
      | Inr x \<Rightarrow>
          if float_le x (Fin 0)
            then (Inl (ValueError ''Withdrawal amount must be a positive number.''), acc)
          else if float_lt (cash_balance acc) x
            then (case as_float amount of
                    Inl e \<Rightarrow> (Inl e, acc)
                  | Inr a \<Rightarrow> (Inl (InsufficientFundsError None a (cash_balance acc)), acc))
          else
            case as_float amount of
              Inl e \<Rightarrow> (Inl e, acc)
            | Inr a \<Rightarrow>
                let acc1 = acc\<lparr>cash_balance := float_sub (cash_balance acc) a\<rparr>
                in (Inr (), record_transaction now ''WITHDRAW'' amount None None None acc1))"

text \<open>
  \<^verbatim>\<open>buy_shares\<close> and \<^verbatim>\<open>sell_shares\<close> call the module-level name \<^verbatim>\<open>get_share_price\<close>, which
  Python resolves at call time (the test suite replaces it with mocks). The price lookup
  is therefore a parameter \<open>pr\<close> of \<open>buy_shares_via\<close> and \<open>sell_shares_via\<close>;
  \<open>buy_shares\<close> and \<open>sell_shares\<close> are the methods of the module as it stands.
  \<^verbatim>\<open>price * quantity\<close> converts the integer quantity to a float first.
\<close>

definition buy_shares_via ::
  "(string \<Rightarrow> error + pyfloat) \<Rightarrow> timestamp \<Rightarrow> string \<Rightarrow> pyval \<Rightarrow> account \<Rightarrow> outcome \<times> account" where
  "buy_shares_via pr now symb qty acc =
     (if \<not> isinstance_int qty \<or> int_value qty \<le> 0
        then (Inl (ValueError ''Quantity must be a positive integer.''), acc)
      else
        let q = int_value qty;
            normalized_symbol = upper symb
        in case pr normalized_symbol of
             Inl e \<Rightarrow> (Inl e, acc)
           | Inr price \<Rightarrow>
               (case float_of_int q of
                  Inl e \<Rightarrow> (Inl e, acc)
                | Inr qf \<Rightarrow>
                    let total_cost = float_mul price qf in
                    if float_lt (cash_balance acc) total_cost
                      then (Inl (InsufficientFundsError (Some (q, normalized_symbol))
                                   total_cost (cash_balance acc)), acc)
                    else
                      let acc1 = acc\<lparr>cash_balance := float_sub (cash_balance acc) total_cost\<rparr>;
                          acc2 = acc1\<lparr>holdings :=
                                   AList.update normalized_symbol
                                     (dict_get (holdings acc1) normalized_symbol 0 + q)
                                     (holdings acc1)\<rparr>
                      in (Inr (), record_transaction now ''BUY'' (PyFloat total_cost)
                                    (Some normalized_symbol) (Some q) (Some price) acc2)))"

text \<open>
  In \<^verbatim>\<open>sell_shares\<close> the cash is credited before \<^verbatim>\<open>self._holdings[normalized_symbol] -= quantity\<close>
  reads the entry, which raises \<^verbatim>\<open>KeyError\<close> when the key is missing; the model keeps
  that branch, with the cash already credited.
\<close>

definition sell_shares_via ::
  "(string \<Rightarrow> error + pyfloat) \<Rightarrow> timestamp \<Rightarrow> string \<Rightarrow> pyval \<Rightarrow> account \<Rightarrow> outcome \<times> account" where
  "sell_shares_via pr now symb qty acc =
     (if \<not> isinstance_int qty \<or> int_value qty \<le> 0
        then (Inl (ValueError ''Quantity must be a positive integer.''), acc)
      else
        let q = int_value qty;
            normalized_symbol = upper symb;
            current_shares = dict_get (holdings acc) normalized_symbol 0
        in if current_shares < q
             then (Inl (InsufficientSharesError q normalized_symbol current_shares), acc)
           else case pr normalized_symbol of
             Inl e \<Rightarrow> (Inl e, acc)
           | Inr price \<Rightarrow>
               (case float_of_int q of
                  Inl e \<Rightarrow> (Inl e, acc)
                | Inr qf \<Rightarrow>
                    let total_proceeds = float_mul price qf;
                        acc1 = acc\<lparr>cash_balance := float_add (cash_balance acc) total_proceeds\<rparr>
                    in case map_of (holdings acc1) normalized_symbol of
                         None \<Rightarrow> (Inl (KeyError normalized_symbol), acc1)
                       | Some v \<Rightarrow>
                           let acc2 = acc1\<lparr>holdings :=
                                        AList.update normalized_symbol (v - q) (holdings acc1)\<rparr>;
                               acc3 = (if map_of (holdings acc2) normalized_symbol = Some 0
                                       then acc2\<lparr>holdings :=
                                              AList.delete normalized_symbol (holdings acc2)\<rparr>
                                       else acc2)
                           in (Inr (), record_transaction now ''SELL'' (PyFloat total_proceeds)
                                         (Some normalized_symbol) (Some q) (Some price) acc3)))"

definition buy_shares :: "timestamp \<Rightarrow> string \<Rightarrow> pyval \<Rightarrow> account \<Rightarrow> outcome \<times> account" where
  "buy_shares = buy_shares_via get_share_price"

definition sell_shares :: "timestamp \<Rightarrow> string \<Rightarrow> pyval \<Rightarrow> account \<Rightarrow> outcome \<times> account" where
  "sell_shares = sell_shares_via get_share_price"

text \<open>
  The loop of \<^verbatim>\<open>get_portfolio_value\<close> over \<^verbatim>\<open>self._holdings.items()\<close>, starting from
  \<^verbatim>\<open>holdings_value = 0.0\<close>. Only \<^verbatim>\<open>InvalidSymbolError\<close> is caught: any other exception
  of the lookup, and the \<^verbatim>\<open>OverflowError\<close> of \<^verbatim>\<open>price * quantity\<close> for a quantity that
  is too large for a float, leaves the method.
\<close>

fun holdings_loop ::
  "(string \<Rightarrow> error + pyfloat) \<Rightarrow> (string \<times> int) list \<Rightarrow> pyfloat \<Rightarrow> error + pyfloat" where
  "holdings_loop pr [] holdings_value = Inr holdings_value"
| "holdings_loop pr ((symb, qty) # rest) holdings_value =
     (case pr symb of
        Inr price \<Rightarrow>
          (case float_of_int qty of
             Inl e \<Rightarrow> Inl e
           | Inr qf \<Rightarrow> holdings_loop pr rest (float_add holdings_value (float_mul price qf)))
      | Inl (InvalidSymbolError m) \<Rightarrow> holdings_loop pr rest holdings_value
      | Inl e \<Rightarrow> Inl e)"

definition get_portfolio_value_via ::
  "(string \<Rightarrow> error + pyfloat) \<Rightarrow> account \<Rightarrow> error + pyfloat" where
  "get_portfolio_value_via pr acc =
     (case holdings_loop pr (holdings acc) (Fin 0) of
        Inl e \<Rightarrow> Inl e
      | Inr holdings_value \<Rightarrow> Inr (float_add (cash_balance acc) holdings_value))"

definition get_portfolio_value :: "account \<Rightarrow> error + pyfloat" where
  "get_portfolio_value = get_portfolio_value_via get_share_price"

definition get_profit_loss :: "account \<Rightarrow> error + pyfloat" where
  "get_profit_loss acc =
     (case get_portfolio_value acc of
        Inl e \<Rightarrow> Inl e
      | Inr portfolio_value \<Rightarrow> Inr (float_sub portfolio_value (total_deposits acc)))"

definition get_cash_balance :: "account \<Rightarrow> pyfloat" where
  "get_cash_balance acc = cash_balance acc"

subsection \<open>Sequences of calls\<close>

text \<open>
  A caller that catches the exception of a failed call goes on with the account as the
  call left it. \<open>run\<close> performs a list of calls on an account in order.
\<close>

datatype call =
    Deposit timestamp pyval
  | Withdraw timestamp pyval
  | Buy timestamp string pyval
  | Sell timestamp string pyval

fun perform :: "call \<Rightarrow> account \<Rightarrow> outcome \<times> account" where
  "perform (Deposit now amount) acc = deposit now amount acc"
| "perform (Withdraw now amount) acc = withdraw now amount acc"
| "perform (Buy now symb qty) acc = buy_shares now symb qty acc"
| "perform (Sell now symb qty) acc = sell_shares now symb qty acc"

fun run :: "call list \<Rightarrow> account \<Rightarrow> account" where
  "run [] acc = acc"
| "run (c # cs) acc = run cs (snd (perform c acc))"

subsection \<open>Objects and references\<close>

text \<open>
  The accessors \<^verbatim>\<open>get_holdings\<close> and \<^verbatim>\<open>get_transaction_history\<close> return
  \<^verbatim>\<open>self._holdings.copy()\<close> and \<^verbatim>\<open>self._transactions.copy()\<close>. What a caller can do
  with the returned object depends on which objects it shares with the account, so these
  two methods are modelled over an explicit store. A \<^verbatim>\<open>dict\<close> of holdings, a \<^verbatim>\<open>list\<close> of
  transactions and the \<^verbatim>\<open>dict\<close> of one transaction are mutable objects with an address;
  strings and numbers are immutable and stored by value. A list holds the addresses of
  its elements. \<open>fresh\<close> is the next unused address.
\<close>

type_synonym addr = nat

record store =
  dicts :: "addr \<Rightarrow> (string \<times> int) list"
  lists :: "addr \<Rightarrow> addr list"
  records :: "addr \<Rightarrow> transaction"
  fresh :: addr

text \<open>The \<^verbatim>\<open>Account\<close> object: two numbers and the references to its two containers.\<close>

record account_obj =
  o_user_id :: string
  o_cash_balance :: pyfloat
  o_total_deposits :: pyfloat
  o_holdings :: addr
  o_transactions :: addr

definition empty_store :: store where
  "empty_store =
     \<lparr>dicts = (\<lambda>x. []), lists = (\<lambda>x. []),
      records = (\<lambda>x. \<lparr>timestamp = 0, trans_type = [], symbol = None, quantity = None,
                        price_per_share = None, total_value = PyNone\<rparr>),
      fresh = 0\<rparr>"

text \<open>\<^verbatim>\<open>__init__\<close> creates a new empty \<^verbatim>\<open>dict\<close> and a new empty \<^verbatim>\<open>list\<close>.\<close>

definition Account_obj :: "string \<Rightarrow> store \<Rightarrow> account_obj \<times> store" where
  "Account_obj uid \<sigma> =
     (let h = fresh \<sigma>; t = Suc (fresh \<sigma>) in
      (\<lparr>o_user_id = uid, o_cash_balance = Fin 0, o_total_deposits = Fin 0,
        o_holdings = h, o_transactions = t\<rparr>,
       \<sigma>\<lparr>dicts := (dicts \<sigma>)(h := []), lists := (lists \<sigma>)(t := []), fresh := Suc t\<rparr>))"

text \<open>
  \<^verbatim>\<open>_record_transaction\<close> builds a new \<^verbatim>\<open>dict\<close> and appends a reference to it to the list
  object \<^verbatim>\<open>self._transactions\<close>.
\<close>

definition record_transaction_obj ::
  "timestamp \<Rightarrow> string \<Rightarrow> pyval \<Rightarrow> string option \<Rightarrow> int option \<Rightarrow> pyfloat option \<Rightarrow>
   store \<Rightarrow> account_obj \<Rightarrow> store" where
  "record_transaction_obj now ty tv symb qty pps \<sigma> a =
     (let x = fresh \<sigma>;
          \<sigma>1 = \<sigma>\<lparr>records := (records \<sigma>)(x :=
                   \<lparr>timestamp = now, trans_type = ty, symbol = symb, quantity = qty,
                    price_per_share = pps, total_value = tv\<rparr>),
                 fresh := Suc x\<rparr>
      in \<sigma>1\<lparr>lists := (lists \<sigma>1)(o_transactions a := lists \<sigma>1 (o_transactions a) @ [x])\<rparr>)"

definition deposit_obj ::
  "timestamp \<Rightarrow> pyval \<Rightarrow> store \<Rightarrow> account_obj \<Rightarrow> outcome \<times> store \<times> account_obj" where
  "deposit_obj now amount \<sigma> a =
     (case exact_value amount of
        Inl e \<Rightarrow> (Inl e, \<sigma>, a)
      | Inr x \<Rightarrow>
          if float_le x (Fin 0)
            then (Inl (ValueError ''Deposit amount must be a positive number.''), \<sigma>, a)
          else
            case as_float amount of
              Inl e \<Rightarrow> (Inl e, \<sigma>, a)
            | Inr v \<Rightarrow>
                let a1 = a\<lparr>o_cash_balance := float_add (o_cash_balance a) v\<rparr>;
                    a2 = a1\<lparr>o_total_deposits := float_add (o_total_deposits a1) v\<rparr>
                in (Inr (),
                    record_transaction_obj now ''DEPOSIT'' amount None None None \<sigma> a2, a2))"

text \<open>
  \<^verbatim>\<open>list.copy()\<close> and \<^verbatim>\<open>dict.copy()\<close> are shallow: a new container object with the same
  elements. Each accessor returns the address of the new object and the store holding it.
\<close>

definition get_transaction_history :: "store \<Rightarrow> account_obj \<Rightarrow> addr \<times> store" where
  "get_transaction_history \<sigma> a =
     (fresh \<sigma>,
      \<sigma>\<lparr>lists := (lists \<sigma>)(fresh \<sigma> := lists \<sigma> (o_transactions a)), fresh := Suc (fresh \<sigma>)\<rparr>)"

definition get_holdings :: "store \<Rightarrow> account_obj \<Rightarrow> addr \<times> store" where
  "get_holdings \<sigma> a =
     (fresh \<sigma>,
      \<sigma>\<lparr>dicts := (dicts \<sigma>)(fresh \<sigma> := dicts \<sigma> (o_holdings a)), fresh := Suc (fresh \<sigma>)\<rparr>)"

text \<open>
  The state of the account as the methods of the previous subsections see it: the
  contents of the objects that the account's references lead to.
\<close>

definition view :: "store \<Rightarrow> account_obj \<Rightarrow> account" where
  "view \<sigma> a =
     \<lparr>user_id = o_user_id a, cash_balance = o_cash_balance a,
      total_deposits = o_total_deposits a,
      holdings = dicts \<sigma> (o_holdings a),
      transactions = map (records \<sigma>) (lists \<sigma> (o_transactions a))\<rparr>"

text \<open>
  What a caller holding a reference can do: change the contents of the list or dict it
  refers to (insert, delete, replace entries: any new contents), and change the contents
  of a transaction \<^verbatim>\<open>dict\<close> it reaches through a list.
\<close>

definition mutate_dict :: "addr \<Rightarrow> (string \<times> int) list \<Rightarrow> store \<Rightarrow> store" where
  "mutate_dict r d \<sigma> = \<sigma>\<lparr>dicts := (dicts \<sigma>)(r := d)\<rparr>"

definition mutate_list :: "addr \<Rightarrow> addr list \<Rightarrow> store \<Rightarrow> store" where
  "mutate_list r xs \<sigma> = \<sigma>\<lparr>lists := (lists \<sigma>)(r := xs)\<rparr>"

definition mutate_record :: "addr \<Rightarrow> transaction \<Rightarrow> store \<Rightarrow> store" where
  "mutate_record x t \<sigma> = \<sigma>\<lparr>records := (records \<sigma>)(x := t)\<rparr>"

text \<open>
  What the caller reads in the object an accessor returned: the entries of the returned
  dict, and the contents of the records that the returned list refers to.
\<close>

definition returned_holdings :: "store \<Rightarrow> account_obj \<Rightarrow> (string \<times> int) list" where
  "returned_holdings \<sigma> a = (case get_holdings \<sigma> a of (r, \<sigma>') \<Rightarrow> dicts \<sigma>' r)"

definition returned_history :: "store \<Rightarrow> account_obj \<Rightarrow> transaction list" where
  "returned_history \<sigma> a =
     (case get_transaction_history \<sigma> a of (r, \<sigma>') \<Rightarrow> map (records \<sigma>') (lists \<sigma>' r))"

text \<open>
  The account's references, and the references in its transaction list, point to
  allocated objects, as they do in every Python state.
\<close>

definition allocated :: "store \<Rightarrow> account_obj \<Rightarrow> bool" where
  "allocated \<sigma> a \<longleftrightarrow>
     o_holdings a < fresh \<sigma> \<and> o_transactions a < fresh \<sigma> \<and>
     (\<forall>x \<in> set (lists \<sigma> (o_transactions a)). x < fresh \<sigma>)"

text \<open>The account of \<^verbatim>\<open>app.py\<close>: created for the demo user and funded with 10000.\<close>

definition demo_account :: account_obj where
  "demo_account =
     (case Account_obj ''demo_user'' empty_store of
        (a, \<sigma>) \<Rightarrow> snd (snd (deposit_obj 0 (PyInt 10000) \<sigma> a)))"

definition demo_store :: store where
  "demo_store =
     (case Account_obj ''demo_user'' empty_store of
        (a, \<sigma>) \<Rightarrow> fst (snd (deposit_obj 0 (PyInt 10000) \<sigma> a)))"

subsection \<open>Terms used in the statements\<close>

text \<open>
  A float that a computation can hold: a binary64 number, an infinity or NaN. The floats
  of an account are of this kind in every state that calls can produce.
\<close>

fun float_ok :: "pyfloat \<Rightarrow> bool" where
  "float_ok (Fin r) = is_double r"
| "float_ok f = True"

definition floats_ok :: "account \<Rightarrow> bool" where
  "floats_ok acc \<longleftrightarrow> float_ok (cash_balance acc) \<and> float_ok (total_deposits acc)"

text \<open>
  The holdings of a state reached from a new account: positive quantities, under
  upper-case symbols that \<^verbatim>\<open>get_share_price\<close> knows.
\<close>

definition holdings_wf :: "account \<Rightarrow> bool" where
  "holdings_wf acc \<longleftrightarrow>
     (\<forall>(k, v) \<in> set (holdings acc). 0 < v \<and> upper k = k \<and> (\<exists>p. get_share_price k = Inr p))"

text \<open>Every BUY and SELL record carries an upper-case symbol.\<close>

definition trades_normalized :: "account \<Rightarrow> bool" where
  "trades_normalized acc \<longleftrightarrow>
     (\<forall>t \<in> set (transactions acc).
        trans_type t = ''BUY'' \<or> trans_type t = ''SELL'' \<longrightarrow>
        (\<exists>k. symbol t = Some k \<and> upper k = k))"

text \<open>
  An integer of 1024 bits: it converts to a float, but its double does not, and
  150 times it is beyond the largest float.
\<close>

definition huge :: int where
  "huge = 2 ^ 1023"

section \<open>Properties\<close>

subsection \<open>Rounding to binary64\<close>

lemma two_powi_less_iff: "(2::rat) powi m < 2 powi n \<longleftrightarrow> m < n"
proof
  assume l: "(2::rat) powi m < 2 powi n"
  show "m < n"
  proof (rule ccontr)
    assume "\<not> m < n"
    then have "(2::rat) powi n \<le> 2 powi m"
      by (intro power_int_increasing) simp_all
    with l show False by simp
  qed
next
  assume "m < n"
  then show "(2::rat) powi m < 2 powi n"
    by (intro power_int_strict_increasing) simp_all
qed

lemma two_powi_le_iff: "(2::rat) powi m \<le> 2 powi n \<longleftrightarrow> m \<le> n"
  using two_powi_less_iff [of n m] by (simp add: not_less [symmetric])

lemma two_powi_pos: "0 < (2::rat) powi n"
  by (simp add: power_int_def)

lemma bitlen_pos: "0 < n \<Longrightarrow> 1 \<le> bitlen n"
  using bitlen_eq_zero_iff [of n] bitlen_nonneg [of n] by linarith

lemma bitlen_powi:
  assumes "0 < n"
  shows "(2::rat) powi (bitlen n - 1) \<le> of_int n" and "(of_int n :: rat) < 2 powi bitlen n"
proof -
  have b: "1 \<le> bitlen n" using assms by (rule bitlen_pos)
  have "(2::int) ^ nat (bitlen n - 1) \<le> n" and "n < 2 ^ nat (bitlen n)"
    using bitlen_bounds [OF assms] by simp_all
  then have "(of_int ((2::int) ^ nat (bitlen n - 1)) :: rat) \<le> of_int n"
    and "(of_int n :: rat) < of_int ((2::int) ^ nat (bitlen n))"
    by (simp_all only: of_int_le_iff of_int_less_iff)
  then show "(2::rat) powi (bitlen n - 1) \<le> of_int n" and "(of_int n :: rat) < 2 powi bitlen n"
    using b by (simp_all add: power_int_def)
qed

lemma ilog2_bounds:
  assumes "0 < x"
  shows "2 powi ilog2 x \<le> x" and "x < 2 powi (ilog2 x + 1)"
proof -
  obtain n d where q: "quotient_of x = (n, d)" by (cases "quotient_of x")
  then have d: "0 < d" and x: "x = of_int n / of_int d"
    by (simp_all add: quotient_of_denom_pos quotient_of_div)
  with assms have n: "0 < n" by (simp add: zero_less_divide_iff)
  define k where "k = bitlen n - bitlen d"
  note bn = bitlen_powi [OF n] and bd = bitlen_powi [OF d]
  have lo: "2 powi (k - 1) \<le> x"
  proof -
    have "(2::rat) powi (k - 1) = 2 powi (bitlen n - 1) / 2 powi bitlen d"
      by (simp add: k_def power_int_diff)
    also have "\<dots> \<le> of_int n / 2 powi bitlen d"
      using bn(1) by (simp add: divide_right_mono)
    also have "\<dots> \<le> of_int n / of_int d"
      using bd(2) n d by (simp add: frac_le)
    finally show ?thesis by (simp add: x)
  qed
  have hi: "x < 2 powi (k + 1)"
  proof -
    have "x = of_int n / of_int d" by (rule x)
    also have "\<dots> < 2 powi bitlen n / of_int d"
      using bn(2) d by (simp add: divide_strict_right_mono)
    also have "\<dots> \<le> 2 powi bitlen n / 2 powi (bitlen d - 1)"
      using bd(1) by (simp add: frac_le)
    also have "\<dots> = 2 powi (k + 1)"
      by (simp add: k_def power_int_diff power_int_add field_simps)
    finally show ?thesis .
  qed
  have e: "ilog2 x = (if 2 powi k \<le> x then k else k - 1)"
    by (simp add: ilog2_def q k_def Let_def)
  show "2 powi ilog2 x \<le> x" using lo by (simp add: e)
  show "x < 2 powi (ilog2 x + 1)" using hi by (simp add: e not_le)
qed

lemma ilog2_unique:
  assumes "0 < x" and "2 powi k \<le> x" and "x < 2 powi (k + 1)"
  shows "ilog2 x = k"
proof -
  have "(2::rat) powi ilog2 x < 2 powi (k + 1)"
    using ilog2_bounds(1) [OF assms(1)] assms(3) by simp
  then have a: "ilog2 x < k + 1" by (simp add: two_powi_less_iff)
  have "(2::rat) powi k < 2 powi (ilog2 x + 1)"
    using ilog2_bounds(2) [OF assms(1)] assms(2) by simp
  then have "k < ilog2 x + 1" by (simp add: two_powi_less_iff)
  with a show ?thesis by simp
qed

lemma ilog2_mono:
  assumes "0 < x" and "x \<le> y"
  shows "ilog2 x \<le> ilog2 y"
proof -
  have "0 < y" using assms by simp
  have "(2::rat) powi ilog2 x \<le> x" using assms(1) by (rule ilog2_bounds)
  also have "x \<le> y" by fact
  also have "y < 2 powi (ilog2 y + 1)" using \<open>0 < y\<close> by (rule ilog2_bounds)
  finally have "ilog2 x < ilog2 y + 1" by (simp add: two_powi_less_iff)
  then show ?thesis by simp
qed

lemma rhe_cases: "round_half_even x = \<lfloor>x\<rfloor> \<or> round_half_even x = \<lfloor>x\<rfloor> + 1"
  by (simp add: round_half_even_def Let_def)

lemma rhe_of_int [simp]: "round_half_even (of_int n) = n"
  by (simp add: round_half_even_def Let_def)

lemma rhe_mono:
  assumes "x \<le> y"
  shows "round_half_even x \<le> round_half_even y"
proof (cases "\<lfloor>x\<rfloor> = \<lfloor>y\<rfloor>")
  case True
  then have "x - of_int \<lfloor>x\<rfloor> \<le> y - of_int \<lfloor>y\<rfloor>" using assms by simp
  with True show ?thesis
    by (auto simp: round_half_even_def Let_def)
next
  case False
  then have "\<lfloor>x\<rfloor> + 1 \<le> \<lfloor>y\<rfloor>" using floor_mono [OF assms] by simp
  moreover have "round_half_even x \<le> \<lfloor>x\<rfloor> + 1" using rhe_cases [of x] by auto
  moreover have "\<lfloor>y\<rfloor> \<le> round_half_even y" using rhe_cases [of y] by auto
  ultimately show ?thesis by linarith
qed

lemma rhe_le: "x \<le> of_int n \<Longrightarrow> round_half_even x \<le> n"
  using rhe_mono [of x "of_int n"] by simp

lemma rhe_ge: "of_int n \<le> x \<Longrightarrow> n \<le> round_half_even x"
  using rhe_mono [of "of_int n" x] by simp

lemma rhe_small: "0 \<le> x \<Longrightarrow> x < 1 / 2 \<Longrightarrow> round_half_even x = 0"
proof -
  assume a: "0 \<le> x" "x < 1 / 2"
  then have "\<lfloor>x\<rfloor> = 0" by (simp add: floor_eq_iff)
  with a show ?thesis by (simp add: round_half_even_def Let_def)
qed

text \<open>A rounded value below a power of two stays at or below it.\<close>

lemma rhe_below_power:
  assumes "0 < x" and "x < 2 powi j"
  shows "of_int (round_half_even x) \<le> (2::rat) powi j"
proof (cases "0 \<le> j")
  case True
  then have p: "(2::rat) powi j = of_int (2 ^ nat j)" by (simp add: power_int_def)
  with assms have "round_half_even x \<le> 2 ^ nat j" by (intro rhe_le) simp
  then have "(of_int (round_half_even x) :: rat) \<le> of_int (2 ^ nat j)"
    by (simp only: of_int_le_iff)
  with p show ?thesis by simp
next
  case False
  then have "j \<le> - 1" by simp
  then have "(2::rat) powi j \<le> 2 powi (- 1)" by (simp only: two_powi_le_iff)
  also have "(2::rat) powi (- 1) = 1 / 2" by (simp add: power_int_minus)
  finally have "x < 1 / 2" using assms(2) by simp
  with assms(1) have "round_half_even x = 0" by (intro rhe_small) simp_all
  then show ?thesis using two_powi_pos [of j] by simp
qed

lemma rhe_above_power:
  assumes "0 \<le> j" and "2 powi j \<le> x"
  shows "(2::rat) powi j \<le> of_int (round_half_even x)"
proof -
  have p: "(2::rat) powi j = of_int (2 ^ nat j)" using assms(1) by (simp add: power_int_def)
  with assms have "2 ^ nat j \<le> round_half_even x" by (intro rhe_ge) simp
  then have "(of_int (2 ^ nat j) :: rat) \<le> of_int (round_half_even x)"
    by (simp only: of_int_le_iff)
  with p show ?thesis by simp
qed

lemma ulp_exponent_mono: "0 < x \<Longrightarrow> x \<le> y \<Longrightarrow> ulp_exponent x \<le> ulp_exponent y"
  using ilog2_mono [of x y] by (simp add: ulp_exponent_def)

lemma round_magnitude_nonneg: "0 < x \<Longrightarrow> 0 \<le> round_magnitude x"
proof -
  assume "0 < x"
  then have "0 \<le> x / 2 powi ulp_exponent x" using two_powi_pos by (simp add: less_imp_le)
  then have "0 \<le> round_half_even (x / 2 powi ulp_exponent x)"
    using rhe_ge [of 0] by simp
  then show ?thesis using two_powi_pos [of "ulp_exponent x"]
    by (simp add: round_magnitude_def)
qed

lemma round_magnitude_upper:
  assumes "0 < x"
  shows "round_magnitude x \<le> 2 powi (ilog2 x + 1)"
proof -
  let ?q = "ulp_exponent x"
  have "x / 2 powi ?q < 2 powi (ilog2 x + 1) / 2 powi ?q"
    using ilog2_bounds(2) [OF assms] two_powi_pos [of ?q] by (simp add: divide_strict_right_mono)
  also have "\<dots> = 2 powi (ilog2 x + 1 - ?q)" by (simp add: power_int_diff)
  finally have "of_int (round_half_even (x / 2 powi ?q)) \<le> (2::rat) powi (ilog2 x + 1 - ?q)"
    using assms two_powi_pos [of ?q] by (intro rhe_below_power) simp_all
  then have "round_magnitude x \<le> 2 powi (ilog2 x + 1 - ?q) * 2 powi ?q"
    unfolding round_magnitude_def using two_powi_pos [of ?q] by (simp add: mult_right_mono)
  also have "\<dots> = 2 powi (ilog2 x + 1)"
    by (simp add: power_int_add [symmetric])
  finally show ?thesis .
qed

lemma round_magnitude_lower:
  assumes "0 < x" and "- 1074 \<le> ilog2 x"
  shows "2 powi ilog2 x \<le> round_magnitude x"
proof -
  let ?q = "ulp_exponent x"
  have j: "0 \<le> ilog2 x - ?q" using assms(2) by (simp add: ulp_exponent_def)
  have "(2::rat) powi (ilog2 x - ?q) = 2 powi ilog2 x / 2 powi ?q" by (simp add: power_int_diff)
  also have "\<dots> \<le> x / 2 powi ?q"
    using ilog2_bounds(1) [OF assms(1)] two_powi_pos [of ?q] by (simp add: divide_right_mono)
  finally have "(2::rat) powi (ilog2 x - ?q) \<le> of_int (round_half_even (x / 2 powi ?q))"
    using j by (intro rhe_above_power)
  then have "2 powi (ilog2 x - ?q) * 2 powi ?q \<le> round_magnitude x"
    unfolding round_magnitude_def using two_powi_pos [of ?q] by (simp add: mult_right_mono)
  then show ?thesis by (simp add: power_int_add [symmetric])
qed

lemma round_magnitude_mono:
  assumes "0 < x" and "x \<le> y"
  shows "round_magnitude x \<le> round_magnitude y"
proof (cases "ulp_exponent x = ulp_exponent y")
  case True
  have "x / 2 powi ulp_exponent y \<le> y / 2 powi ulp_exponent y"
    using assms(2) two_powi_pos [of "ulp_exponent y"] by (simp add: divide_right_mono)
  then have "round_half_even (x / 2 powi ulp_exponent y) \<le> round_half_even (y / 2 powi ulp_exponent y)"
    by (rule rhe_mono)
  then show ?thesis
    unfolding round_magnitude_def True using two_powi_pos [of "ulp_exponent y"]
    by (simp add: mult_right_mono)
next
  case False
  have y: "0 < y" using assms by simp
  from False ulp_exponent_mono [OF assms] have lt: "ulp_exponent x < ulp_exponent y" by simp
  then have e: "ilog2 x + 1 \<le> ilog2 y" and n: "- 1074 \<le> ilog2 y"
    by (simp_all add: ulp_exponent_def max_def split: if_splits)
  have "round_magnitude x \<le> 2 powi (ilog2 x + 1)" using assms(1) by (rule round_magnitude_upper)
  also have "\<dots> \<le> 2 powi ilog2 y" using e by (simp add: two_powi_le_iff)
  also have "\<dots> \<le> round_magnitude y" using y n by (rule round_magnitude_lower)
  finally show ?thesis .
qed

lemma scale_down:
  assumes "q' \<le> q"
  shows "\<exists>m'. (of_int m :: rat) * 2 powi q = of_int m' * 2 powi q'"
proof -
  have "(2::rat) powi q = 2 powi (q - q') * 2 powi q'"
    by (simp add: power_int_add [symmetric])
  also have "(2::rat) powi (q - q') = of_int (2 ^ nat (q - q'))"
    using assms by (simp add: power_int_def)
  finally have "(of_int m :: rat) * 2 powi q = of_int (m * 2 ^ nat (q - q')) * 2 powi q'"
    by simp
  then show ?thesis ..
qed

lemma round_magnitude_exact:
  assumes "0 < y" and "y = of_int m * 2 powi q" and "ulp_exponent y \<le> q"
  shows "round_magnitude y = y"
proof -
  obtain m' where m': "y = of_int m' * 2 powi ulp_exponent y"
    using scale_down [OF assms(3), of m] assms(2) by auto
  have "y / 2 powi ulp_exponent y = of_int m'"
    using two_powi_pos [of "ulp_exponent y"] by (subst m') simp
  then show ?thesis
    unfolding round_magnitude_def using m' by simp
qed

lemma round_magnitude_idem:
  assumes "0 < x"
  shows "round_magnitude (round_magnitude x) = round_magnitude x"
proof (cases "round_magnitude x = 0")
  case True
  then show ?thesis using rhe_of_int [of 0] by (simp add: round_magnitude_def)
next
  case False
  let ?y = "round_magnitude x" and ?q = "ulp_exponent x"
  let ?m = "round_half_even (x / 2 powi ?q)"
  have y: "0 < ?y" using False round_magnitude_nonneg [OF assms] by simp
  have ym: "?y = of_int ?m * 2 powi ?q" by (simp add: round_magnitude_def)
  have m: "1 \<le> ?m"
  proof -
    have "0 < (of_int ?m :: rat)"
      using y two_powi_pos [of ?q] unfolding ym by (simp add: zero_less_mult_iff)
    then show ?thesis by simp
  qed
  have q: "- 1074 \<le> ?q" by (simp add: ulp_exponent_def)
  show ?thesis
  proof (cases "?y = 2 powi (ilog2 x + 1)")
    case True
    have "2 powi ?q \<le> ?y"
    proof -
      have "(1::rat) \<le> of_int ?m" using m by simp
      then show ?thesis unfolding ym using two_powi_pos [of ?q]
        by (simp add: mult_right_mono [of 1 "of_int ?m" "2 powi ?q", simplified])
    qed
    with True have "?q \<le> ilog2 x + 1" by (simp add: two_powi_le_iff)
    moreover have "ilog2 ?y = ilog2 x + 1"
      using y True by (intro ilog2_unique) (simp_all add: two_powi_less_iff)
    ultimately have "ulp_exponent ?y \<le> ilog2 x + 1"
      using q by (simp add: ulp_exponent_def)
    moreover have "?y = of_int 1 * 2 powi (ilog2 x + 1)" using True by simp
    ultimately show ?thesis using y by (intro round_magnitude_exact)
  next
    case False
    with round_magnitude_upper [OF assms] have "?y < 2 powi (ilog2 x + 1)" by simp
    then have "2 powi ilog2 ?y < (2::rat) powi (ilog2 x + 1)"
      using ilog2_bounds(1) [OF y] by simp
    then have "ilog2 ?y \<le> ilog2 x" by (simp add: two_powi_less_iff)
    then have "ulp_exponent ?y \<le> ?q" by (simp add: ulp_exponent_def)
    with y ym show ?thesis by (intro round_magnitude_exact)
  qed
qed

lemma round_to_double_idem:
  assumes "round_to_double x = Fin y"
  shows "round_to_double y = Fin y"
proof -
  consider "x = 0" | "0 < x" | "x < 0" by linarith
  then show ?thesis
  proof cases
    case 1
    with assms show ?thesis by (simp add: round_to_double_def)
  next
    case 2
    with assms have y: "y = round_magnitude x"
      and n: "\<not> (0 < round_magnitude x \<and> 1024 \<le> ilog2 (round_magnitude x))"
      by (auto simp: round_to_double_def Let_def split: if_splits)
    show ?thesis
    proof (cases "y = 0")
      case True
      then show ?thesis by (simp add: round_to_double_def)
    next
      case False
      with y round_magnitude_nonneg [OF 2] have "0 < y" by simp
      moreover have "round_magnitude y = y" using y round_magnitude_idem [OF 2] by simp
      ultimately show ?thesis using n y by (simp add: round_to_double_def Let_def)
    qed
  next
    case 3
    then have p: "0 < - x" by simp
    from 3 assms have y: "y = - round_magnitude (- x)"
      and n: "\<not> (0 < round_magnitude (- x) \<and> 1024 \<le> ilog2 (round_magnitude (- x)))"
      by (auto simp: round_to_double_def Let_def split: if_splits)
    show ?thesis
    proof (cases "y = 0")
      case True
      then show ?thesis by (simp add: round_to_double_def)
    next
      case False
      with y round_magnitude_nonneg [OF p] have "y < 0" by simp
      moreover have "round_magnitude (- y) = - y" using y round_magnitude_idem [OF p] by simp
      ultimately show ?thesis using n y by (simp add: round_to_double_def Let_def)
    qed
  qed
qed

lemma round_to_double_nonneg:
  assumes "0 \<le> x"
  shows "round_to_double x = PInf \<or> (\<exists>r\<ge>0. round_to_double x = Fin r)"
proof (cases "x = 0")
  case True
  then show ?thesis by (simp add: round_to_double_def)
next
  case False
  with assms have "0 < x" by simp
  then show ?thesis
    using round_magnitude_nonneg [of x] by (simp add: round_to_double_def Let_def)
qed

lemma round_to_double_pos_cases:
  assumes "0 < x"
  shows "(round_to_double x = PInf \<and> 0 < round_magnitude x \<and> 1024 \<le> ilog2 (round_magnitude x))
       \<or> (round_to_double x = Fin (round_magnitude x) \<and>
           \<not> (0 < round_magnitude x \<and> 1024 \<le> ilog2 (round_magnitude x)))"
  using assms by (simp add: round_to_double_def Let_def)

lemma round_to_double_mono_pos:
  assumes "0 < x" and "x \<le> y"
  shows "float_le (round_to_double x) (round_to_double y)"
proof -
  have y: "0 < y" using assms by simp
  have m: "round_magnitude x \<le> round_magnitude y" using assms by (rule round_magnitude_mono)
  have o: "0 < round_magnitude y \<and> 1024 \<le> ilog2 (round_magnitude y)"
    if "0 < round_magnitude x" and "1024 \<le> ilog2 (round_magnitude x)"
    using that m ilog2_mono [of "round_magnitude x" "round_magnitude y"] by simp
  show ?thesis
    using round_to_double_pos_cases [OF assms(1)] round_to_double_pos_cases [OF y] m o
    by auto
qed

lemma round_to_double_neg:
  "x \<noteq> 0 \<Longrightarrow> round_to_double (- x) =
     (case round_to_double x of Fin r \<Rightarrow> Fin (- r) | PInf \<Rightarrow> NInf | NInf \<Rightarrow> PInf | NaN \<Rightarrow> NaN)"
  by (simp add: round_to_double_def Let_def)

lemma float_le_neg:
  "float_le a b \<Longrightarrow>
   float_le (case b of Fin r \<Rightarrow> Fin (- r) | PInf \<Rightarrow> NInf | NInf \<Rightarrow> PInf | NaN \<Rightarrow> NaN)
            (case a of Fin r \<Rightarrow> Fin (- r) | PInf \<Rightarrow> NInf | NInf \<Rightarrow> PInf | NaN \<Rightarrow> NaN)"
  by (cases a; cases b) simp_all

lemma round_to_double_mono:
  assumes "x \<le> y"
  shows "float_le (round_to_double x) (round_to_double y)"
proof -
  consider "0 < x" | "x \<le> 0" "0 \<le> y" | "y < 0" using assms by linarith
  then show ?thesis
  proof cases
    case 1
    then show ?thesis using assms by (rule round_to_double_mono_pos)
  next
    case 2
    have a: "round_to_double x = NInf \<or> (\<exists>r\<le>0. round_to_double x = Fin r)"
    proof (cases "x = 0")
      case True
      then show ?thesis by (simp add: round_to_double_def)
    next
      case False
      with 2 have "0 < - x" by simp
      then show ?thesis
        using round_magnitude_nonneg [of "- x"] 2 False by (simp add: round_to_double_def Let_def)
    qed
    from round_to_double_nonneg [OF 2(2)] a show ?thesis by auto
  next
    case 3
    then have "0 < - y" and "- y \<le> - x" and "x \<noteq> 0" and "y \<noteq> 0" using assms by simp_all
    then have "float_le (round_to_double (- y)) (round_to_double (- x))"
      by (intro round_to_double_mono_pos)
    then show ?thesis
      using float_le_neg [of "round_to_double (- y)" "round_to_double (- x)"]
      by (simp add: round_to_double_neg \<open>x \<noteq> 0\<close> \<open>y \<noteq> 0\<close> split: pyfloat.splits)
  qed
qed

subsection \<open>Binary64 numbers\<close>

lemma ilog2_two_powi: "ilog2 (2 powi k) = k"
  by (rule ilog2_unique) (simp_all add: two_powi_pos two_powi_less_iff)

lemma two_powi_is_double:
  assumes "- 1074 \<le> k" and "k < 1024"
  shows "round_to_double (2 powi k) = Fin (2 powi k)"
proof -
  let ?y = "(2::rat) powi k"
  have p: "0 < ?y" by (rule two_powi_pos)
  have "ulp_exponent ?y \<le> k" using assms(1) by (simp add: ulp_exponent_def ilog2_two_powi)
  moreover have "?y = of_int 1 * 2 powi k" by simp
  ultimately have "round_magnitude ?y = ?y" using p by (intro round_magnitude_exact)
  then show ?thesis
    using p assms(2) by (simp add: round_to_double_def Let_def ilog2_two_powi)
qed

lemma round_to_double_overflow:
  assumes "2 ^ 1024 \<le> x"
  shows "round_to_double x = PInf"
proof -
  have t: "(2::rat) ^ 1024 = 2 powi 1024" by simp
  have x: "0 < x"
  proof -
    have "(0::rat) < 2 ^ 1024" by simp
    with assms show ?thesis by linarith
  qed
  have "ilog2 (2 powi 1024) \<le> ilog2 x"
    using assms unfolding t by (intro ilog2_mono two_powi_pos)
  then have e: "1024 \<le> ilog2 x" by (simp only: ilog2_two_powi)
  then have "(2::rat) powi 1024 \<le> 2 powi ilog2 x" by (simp only: two_powi_le_iff)
  also have "\<dots> \<le> round_magnitude x" using x e by (intro round_magnitude_lower) simp_all
  finally have m: "(2::rat) powi 1024 \<le> round_magnitude x" .
  then have p: "0 < round_magnitude x" using two_powi_pos [of 1024] by linarith
  have "ilog2 (2 powi 1024) \<le> ilog2 (round_magnitude x)"
    using m by (intro ilog2_mono two_powi_pos)
  then have "1024 \<le> ilog2 (round_magnitude x)" by (simp only: ilog2_two_powi)
  with x p show ?thesis by (simp add: round_to_double_def Let_def)
qed

lemma int_is_double:
  assumes "\<bar>n\<bar> < 2 ^ 53"
  shows "round_to_double (of_int n) = Fin (of_int n)"
proof -
  have pos: "round_to_double (of_int m) = Fin (of_int m)" if m: "0 < m" "m < 2 ^ 53" for m :: int
  proof -
    let ?y = "of_int m :: rat"
    have y: "0 < ?y" using m by simp
    have "?y < of_int (2 ^ 53)" using m(2) by (simp only: of_int_less_iff)
    then have lt: "?y < 2 powi 53" by simp
    have "2 powi ilog2 ?y \<le> ?y" using y by (rule ilog2_bounds)
    with lt have "(2::rat) powi ilog2 ?y < 2 powi 53" by linarith
    then have e: "ilog2 ?y < 53" by (simp only: two_powi_less_iff)
    then have "ulp_exponent ?y \<le> 0" by (simp add: ulp_exponent_def)
    moreover have "?y = of_int m * 2 powi 0" by simp
    ultimately have "round_magnitude ?y = ?y" using y by (intro round_magnitude_exact)
    then show ?thesis using y e by (simp add: round_to_double_def Let_def)
  qed
  consider "n = 0" | "0 < n" | "n < 0" by linarith
  then show ?thesis
  proof cases
    case 1
    then show ?thesis by (simp add: round_to_double_def)
  next
    case 2
    with assms show ?thesis by (intro pos) simp_all
  next
    case 3
    with assms have "round_to_double (of_int (- n)) = Fin (of_int (- n))" by (intro pos) simp_all
    with 3 show ?thesis
      using round_to_double_neg [of "of_int (- n)"] by simp
  qed
qed

lemma float_ok_round [simp]: "float_ok (round_to_double x)"
proof (cases "round_to_double x")
  case (Fin y)
  then show ?thesis using round_to_double_idem [of x y] by (simp add: is_double_def)
qed simp_all

lemma float_ok_add [simp]: "float_ok (float_add a b)"
  by (cases a; cases b) simp_all

lemma float_ok_neg: "float_ok a \<Longrightarrow> float_ok (float_neg a)"
proof (cases a)
  case (Fin x)
  assume "float_ok a"
  with Fin have d: "round_to_double x = Fin x" by (simp add: is_double_def)
  show ?thesis
  proof (cases "x = 0")
    case True
    with Fin show ?thesis by (simp add: is_double_def round_to_double_def)
  next
    case False
    with d Fin show ?thesis by (simp add: is_double_def round_to_double_neg)
  qed
qed simp_all

lemma float_ok_sub [simp]: "float_ok (float_sub a b)"
  by (simp add: float_sub_def)

lemma float_ok_mul [simp]: "float_ok (float_mul a b)"
  by (cases a; cases b) simp_all

lemma float_of_int_ok: "float_of_int n = Inr f \<Longrightarrow> float_ok f"
  using float_ok_round [of "of_int n"]
  by (auto simp: float_of_int_def split: pyfloat.splits)

lemma float_of_int_nonneg:
  assumes "0 \<le> n" and "float_of_int n = Inr f"
  shows "\<exists>r\<ge>0. f = Fin r"
  using assms round_to_double_nonneg [of "of_int n"]
  by (auto simp: float_of_int_def split: pyfloat.splits)

subsection \<open>Order of floats\<close>

lemma float_lt_PInf [simp]: "\<not> float_lt PInf b"
  by (cases b) simp_all

lemma float_lt_NaN_right [simp]: "\<not> float_lt a NaN"
  by (cases a) simp_all

lemma float_le_NaN_right [simp]: "\<not> float_le a NaN"
  by (cases a) simp_all

lemma float_add_NaN_right [simp]: "float_add a NaN = NaN"
  by (cases a) simp_all

lemma float_mul_NaN_right [simp]: "float_mul a NaN = NaN"
  by (cases a) simp_all

lemma float_le_refl: "a \<noteq> NaN \<Longrightarrow> float_le a a"
  by (cases a) simp_all

lemma float_le_trans: "float_le a b \<Longrightarrow> float_le b c \<Longrightarrow> float_le a c"
  by (cases a; cases b; cases c) simp_all

lemma float_lt_le: "float_le a b \<Longrightarrow> \<not> float_lt b a"
  by (cases a; cases b) simp_all

lemma not_float_lt: "\<not> float_lt a b \<Longrightarrow> a = NaN \<or> b = NaN \<or> float_le b a"
  by (cases a; cases b) simp_all

text \<open>``\<open>b\<close> is not below \<open>a\<close>'', in a form that chains: NaN stays NaN.\<close>

lemma never_lower_trans:
  assumes "b = NaN \<or> float_le a b" and "c = NaN \<or> float_le b c"
  shows "c = NaN \<or> float_le a c"
  using assms float_le_trans [of a b c] by (cases b) auto

lemma round_below_double:
  assumes "float_ok a" and "\<not> float_lt a (Fin x)"
  shows "\<not> float_lt a (round_to_double x)"
proof (cases a)
  case (Fin c)
  with assms have d: "round_to_double c = Fin c" and le: "x \<le> c"
    by (simp_all add: is_double_def)
  from le have "float_le (round_to_double x) (round_to_double c)" by (rule round_to_double_mono)
  with d Fin show ?thesis by (simp add: float_lt_le)
next
  case NInf
  with assms show ?thesis by simp
qed simp_all

lemma float_add_nonneg_ge:
  assumes "float_ok a" and "b = NaN \<or> float_le (Fin 0) b"
  shows "float_add a b = NaN \<or> float_le a (float_add a b)"
proof (cases a)
  case (Fin x)
  with assms(1) have d: "round_to_double x = Fin x" by (simp add: is_double_def)
  show ?thesis
  proof (cases b)
    case (Fin y)
    with assms(2) have "x \<le> x + y" by simp
    then have "float_le (round_to_double x) (round_to_double (x + y))"
      by (rule round_to_double_mono)
    with d Fin \<open>a = Fin x\<close> show ?thesis by simp
  qed (use assms(2) Fin in simp_all)
qed (use assms(2) in \<open>cases b; simp\<close>)+

lemma float_sub_nonneg_le:
  assumes "float_ok a" and "b = NaN \<or> float_le (Fin 0) b"
  shows "float_sub a b = NaN \<or> float_le (float_sub a b) a"
proof (cases a)
  case (Fin x)
  with assms(1) have d: "round_to_double x = Fin x" by (simp add: is_double_def)
  show ?thesis
  proof (cases b)
    case (Fin y)
    with assms(2) have "x - y \<le> x" by simp
    then have "float_le (round_to_double (x - y)) (round_to_double x)"
      by (rule round_to_double_mono)
    with d Fin \<open>a = Fin x\<close> show ?thesis by (simp add: float_sub_def)
  qed (use assms(2) Fin in \<open>simp_all add: float_sub_def\<close>)
qed (use assms(2) in \<open>cases b; simp add: float_sub_def\<close>)+

lemma float_add_nonneg:
  assumes "a = NaN \<or> float_le (Fin 0) a" and "b = NaN \<or> float_le (Fin 0) b"
  shows "float_add a b = NaN \<or> float_le (Fin 0) (float_add a b)"
proof (cases a; cases b)
  fix x y
  assume "a = Fin x" "b = Fin y"
  with assms have "0 \<le> x + y" by simp
  then show ?thesis
    using round_to_double_nonneg [of "x + y"] \<open>a = Fin x\<close> \<open>b = Fin y\<close> by auto
qed (use assms in simp_all)

lemma float_sub_guarded_nonneg:
  assumes "\<not> float_lt a b"
  shows "float_sub a b = NaN \<or> float_le (Fin 0) (float_sub a b)"
proof (cases a; cases b)
  fix x y
  assume "a = Fin x" "b = Fin y"
  with assms have "0 \<le> x - y" by simp
  then show ?thesis
    using round_to_double_nonneg [of "x - y"] \<open>a = Fin x\<close> \<open>b = Fin y\<close>
    by (auto simp: float_sub_def)
qed (use assms in \<open>simp_all add: float_sub_def\<close>)

lemma float_mul_nonneg:
  assumes "0 \<le> x" and "0 \<le> y"
  shows "float_mul (Fin x) (Fin y) = PInf \<or> (\<exists>r\<ge>0. float_mul (Fin x) (Fin y) = Fin r)"
  using assms round_to_double_nonneg [of "x * y"] by simp

subsection \<open>Strings and prices\<close>

lemma upper_char_idem: "upper_char (upper_char c) = upper_char c"
  by (auto simp: upper_char_def Let_def)

lemma upper_idem: "upper (upper s) = upper s"
  by (simp add: upper_def upper_char_idem)

lemma price_positive: "get_share_price s = Inr p \<Longrightarrow> \<exists>r>0. p = Fin r"
  by (auto simp: get_share_price_def prices_def Let_def split: option.splits if_splits)

lemma get_share_price_upper:
  "get_share_price symb = Inr p \<Longrightarrow> get_share_price (upper symb) = Inr p"
  by (auto simp: get_share_price_def Let_def upper_idem split: option.splits)

lemma get_share_price_error:
  "get_share_price s = Inl e \<Longrightarrow> e = InvalidSymbolError s"
  by (auto simp: get_share_price_def Let_def split: option.splits)

subsection \<open>Outcome of a single call\<close>

lemma deposit_outcome:
  "(fst (deposit now amount acc) = Inr () \<and>
      (\<exists>t. transactions (snd (deposit now amount acc)) = transactions acc @ [t]))
   \<or> (\<exists>e. deposit now amount acc = (Inl e, acc))"
  by (simp add: deposit_def record_transaction_def Let_def split: sum.splits)

lemma withdraw_outcome:
  "(fst (withdraw now amount acc) = Inr () \<and>
      (\<exists>t. transactions (snd (withdraw now amount acc)) = transactions acc @ [t]))
   \<or> (\<exists>e. withdraw now amount acc = (Inl e, acc))"
  by (simp add: withdraw_def record_transaction_def Let_def split: sum.splits)

lemma buy_outcome:
  "(fst (buy_shares_via pr now symb qty acc) = Inr () \<and>
      (\<exists>t. transactions (snd (buy_shares_via pr now symb qty acc)) = transactions acc @ [t]))
   \<or> (\<exists>e. buy_shares_via pr now symb qty acc = (Inl e, acc))"
  by (simp add: buy_shares_via_def record_transaction_def Let_def split: sum.splits)

text \<open>
  The \<^verbatim>\<open>KeyError\<close> branch of \<^verbatim>\<open>sell_shares\<close> is dead: past the ownership check the
  symbol has an entry.
\<close>

lemma sell_outcome:
  "(fst (sell_shares_via pr now symb qty acc) = Inr () \<and>
      (\<exists>t. transactions (snd (sell_shares_via pr now symb qty acc)) = transactions acc @ [t]))
   \<or> (\<exists>e. sell_shares_via pr now symb qty acc = (Inl e, acc))"
  by (auto simp: sell_shares_via_def record_transaction_def Let_def dict_get_def
        split: sum.splits option.splits)

text \<open>
  Claim C3. Each of deposit, withdraw, buy_shares and sell_shares, called in any account
  state with any arguments, either returns normally and leaves a transaction list that is
  the old one with exactly one record appended, or raises and leaves the whole account
  (cash, total deposits, holdings, transactions) as it was before the call.
\<close>

theorem one_record_on_success_none_on_failure:
  "((fst (deposit now amount acc) = Inr () \<and>
       (\<exists>t. transactions (snd (deposit now amount acc)) = transactions acc @ [t]))
     \<or> (\<exists>e. deposit now amount acc = (Inl e, acc)))
   \<and> ((fst (withdraw now amount acc) = Inr () \<and>
       (\<exists>t. transactions (snd (withdraw now amount acc)) = transactions acc @ [t]))
     \<or> (\<exists>e. withdraw now amount acc = (Inl e, acc)))
   \<and> ((fst (buy_shares now symb qty acc) = Inr () \<and>
       (\<exists>t. transactions (snd (buy_shares now symb qty acc)) = transactions acc @ [t]))
     \<or> (\<exists>e. buy_shares now symb qty acc = (Inl e, acc)))
   \<and> ((fst (sell_shares now symb qty acc) = Inr () \<and>
       (\<exists>t. transactions (snd (sell_shares now symb qty acc)) = transactions acc @ [t]))
     \<or> (\<exists>e. sell_shares now symb qty acc = (Inl e, acc)))"
  unfolding buy_shares_def sell_shares_def
  using deposit_outcome withdraw_outcome buy_outcome sell_outcome by blast

subsection \<open>Selling more than owned\<close>



subsection \<open>Quantities that are not positive integers\<close>

text \<open>
  Claim C8. When the quantity argument is not a positive integer (it is not an instance
  of \<^verbatim>\<open>int\<close>, as the float 1.5, or it is an integer that is zero or negative), both
  buy_shares and sell_shares raise \<^verbatim>\<open>ValueError("Quantity must be a positive integer.")\<close>,
  the module's invalid-quantity error, for every symbol, and leave the account unchanged.
\<close>

theorem invalid_quantity_rejected:
  assumes "\<not> (isinstance_int qty \<and> 0 < int_value qty)"
  shows "buy_shares now symb qty acc =
           (Inl (ValueError ''Quantity must be a positive integer.''), acc)
       \<and> sell_shares now symb qty acc =
           (Inl (ValueError ''Quantity must be a positive integer.''), acc)"
  using assms
  by (auto simp: buy_shares_def sell_shares_def buy_shares_via_def sell_shares_via_def)

theorem invalid_quantity_rejected_witness:
  "\<not> (isinstance_int (PyInt 0) \<and> 0 < int_value (PyInt 0)) \<and>
   \<not> (isinstance_int (PyInt (- 1)) \<and> 0 < int_value (PyInt (- 1))) \<and>
   \<not> (isinstance_int (PyFloat (Fin (3 / 2))) \<and> 0 < int_value (PyFloat (Fin (3 / 2)))) \<and>
   buy_shares 8 ''AAPL'' (PyInt 0) (Account ''u'') =
     (Inl (ValueError ''Quantity must be a positive integer.''), Account ''u'') \<and>
   sell_shares 8 ''AAPL'' (PyInt 0) (Account ''u'') =
     (Inl (ValueError ''Quantity must be a positive integer.''), Account ''u'') \<and>
   buy_shares 8 ''AAPL'' (PyInt (- 1)) (Account ''u'') =
     (Inl (ValueError ''Quantity must be a positive integer.''), Account ''u'') \<and>
   sell_shares 8 ''AAPL'' (PyInt (- 1)) (Account ''u'') =
     (Inl (ValueError ''Quantity must be a positive integer.''), Account ''u'') \<and>
   buy_shares 8 ''AAPL'' (PyFloat (Fin (3 / 2))) (Account ''u'') =
     (Inl (ValueError ''Quantity must be a positive integer.''), Account ''u'') \<and>
   sell_shares 8 ''AAPL'' (PyFloat (Fin (3 / 2))) (Account ''u'') =
     (Inl (ValueError ''Quantity must be a positive integer.''), Account ''u'')"
proof -
  have z: "\<not> (isinstance_int (PyInt 0) \<and> 0 < int_value (PyInt 0))"
    and n: "\<not> (isinstance_int (PyInt (- 1)) \<and> 0 < int_value (PyInt (- 1)))"
    and f: "\<not> (isinstance_int (PyFloat (Fin (3 / 2))) \<and> 0 < int_value (PyFloat (Fin (3 / 2))))"
    by simp_all
  show ?thesis
    using z n f
      invalid_quantity_rejected [OF z, of 8 "''AAPL''" "Account ''u''"]
      invalid_quantity_rejected [OF n, of 8 "''AAPL''" "Account ''u''"]
      invalid_quantity_rejected [OF f, of 8 "''AAPL''" "Account ''u''"]
    by simp
qed

subsection \<open>Holdings\<close>

lemma set_update_subset: "set (AList.update k v al) \<subseteq> insert (k, v) (set al)"
  by (induction al) auto

lemma set_delete_subset: "set (AList.delete k al) \<subseteq> set al"
  by (auto simp: AList.delete_eq)

lemma float_of_int_cases:
  "(\<exists>r. float_of_int n = Inr (Fin r)) \<or> float_of_int n = Inl OverflowError"
  by (simp add: float_of_int_def split: pyfloat.splits)

lemma round_to_double_finite:
  assumes "\<bar>x\<bar> < 2 ^ 1023"
  shows "\<exists>r. round_to_double x = Fin r"
proof -
  have pos: "\<exists>r. round_to_double y = Fin r" if y: "0 < y" "y < 2 ^ 1023" for y
  proof (cases "0 < round_magnitude y")
    case True
    have "2 powi ilog2 y \<le> y" using y(1) by (rule ilog2_bounds)
    also have "y < 2 powi 1023" using y(2) by simp
    finally have "ilog2 y < 1023" by (simp only: two_powi_less_iff)
    then have "(2::rat) powi (ilog2 y + 1) \<le> 2 powi 1023" by (simp only: two_powi_le_iff)
    with round_magnitude_upper [OF y(1)] have "round_magnitude y \<le> 2 powi 1023" by linarith
    then have "2 powi ilog2 (round_magnitude y) \<le> (2::rat) powi 1023"
      using ilog2_bounds(1) [OF True] by linarith
    then have "ilog2 (round_magnitude y) \<le> 1023" by (simp only: two_powi_le_iff)
    with y(1) show ?thesis by (simp add: round_to_double_def Let_def)
  next
    case False
    with y(1) show ?thesis by (simp add: round_to_double_def Let_def)
  qed
  consider "x = 0" | "0 < x" | "x < 0" by linarith
  then show ?thesis
  proof cases
    case 1
    then show ?thesis by (simp add: round_to_double_def)
  next
    case 2
    with assms show ?thesis by (intro pos) simp_all
  next
    case 3
    with assms obtain r where "round_to_double (- x) = Fin r"
      using pos [of "- x"] by auto
    with 3 show ?thesis using round_to_double_neg [of "- x"] by simp
  qed
qed

lemma float_of_int_finite:
  assumes "\<bar>n\<bar> < 2 ^ 1023"
  shows "\<exists>r. float_of_int n = Inr (Fin r)"
proof -
  have "\<bar>of_int n :: rat\<bar> < of_int (2 ^ 1023)"
    using assms by (simp only: of_int_abs [symmetric] of_int_less_iff)
  then have "\<bar>of_int n :: rat\<bar> < 2 ^ 1023" by simp
  then obtain r where "round_to_double (of_int n) = Fin r"
    using round_to_double_finite by blast
  then show ?thesis by (simp add: float_of_int_def)
qed

lemma sell_success:
  assumes "pr (upper symb) = Inr p" and "isinstance_int qty" and "0 < int_value qty"
    and "map_of (holdings acc) (upper symb) = Some n" and "int_value qty \<le> n"
    and "float_of_int (int_value qty) = Inr qf"
  shows "sell_shares_via pr now symb qty acc =
    (Inr (), acc\<lparr>cash_balance := float_add (cash_balance acc) (float_mul p qf),
       holdings :=
         (if n = int_value qty
          then AList.delete (upper symb) (AList.update (upper symb) 0 (holdings acc))
          else AList.update (upper symb) (n - int_value qty) (holdings acc)),
       transactions := transactions acc @
        [\<lparr>timestamp = now, trans_type = ''SELL'', symbol = Some (upper symb),
          quantity = Some (int_value qty), price_per_share = Some p,
          total_value = PyFloat (float_mul p qf)\<rparr>]\<rparr>)"
  using assms
  by (simp add: sell_shares_via_def record_transaction_def Let_def dict_get_def update_conv')

lemma sell_overflow:
  assumes "pr (upper symb) = Inr p" and "isinstance_int qty" and "0 < int_value qty"
    and "map_of (holdings acc) (upper symb) = Some n" and "int_value qty \<le> n"
    and "float_of_int (int_value qty) = Inl e"
  shows "sell_shares_via pr now symb qty acc = (Inl e, acc)"
  using assms by (simp add: sell_shares_via_def Let_def dict_get_def)

lemma buy_holdings:
  assumes "e \<in> set (holdings (snd (buy_shares now symb qty acc)))"
  shows "e \<in> set (holdings acc) \<or>
    (0 < int_value qty \<and> (\<exists>p. get_share_price (upper symb) = Inr p) \<and>
     e = (upper symb, dict_get (holdings acc) (upper symb) 0 + int_value qty))"
  using assms set_update_subset [of "upper symb"
      "dict_get (holdings acc) (upper symb) 0 + int_value qty" "holdings acc"]
  by (auto simp: buy_shares_def buy_shares_via_def record_transaction_def Let_def
        split: sum.splits if_splits)

lemma sell_holdings:
  assumes "e \<in> set (holdings (snd (sell_shares now symb qty acc)))"
  shows "e \<in> set (holdings acc) \<or>
    (\<exists>n. map_of (holdings acc) (upper symb) = Some n \<and> int_value qty < n \<and>
         e = (upper symb, n - int_value qty))"
proof (cases "fst (sell_shares now symb qty acc)")
  case (Inl x)
  then have "snd (sell_shares now symb qty acc) = acc"
    using sell_outcome [of get_share_price now symb qty acc]
    by (auto simp: sell_shares_def)
  with assms show ?thesis by simp
next
  case (Inr u)
  then obtain p n qf where p: "get_share_price (upper symb) = Inr p"
    and i: "isinstance_int qty" and q: "0 < int_value qty"
    and n: "map_of (holdings acc) (upper symb) = Some n" and le: "int_value qty \<le> n"
    and f: "float_of_int (int_value qty) = Inr qf"
    by (auto simp: sell_shares_def sell_shares_via_def Let_def dict_get_def
          split: sum.splits if_splits option.splits)
  note s = sell_success [where pr = get_share_price, OF p i q n le f, of now]
  show ?thesis
  proof (cases "n = int_value qty")
    case True
    with assms s have "e \<in> set (AList.delete (upper symb) (AList.update (upper symb) 0 (holdings acc)))"
      by (simp add: sell_shares_def)
    then have "e \<in> set (AList.delete (upper symb) (holdings acc))"
      by (simp add: delete_update_same)
    then have "e \<in> set (holdings acc)"
      using set_delete_subset by fastforce
    then show ?thesis ..
  next
    case False
    with assms s have "e \<in> set (AList.update (upper symb) (n - int_value qty) (holdings acc))"
      by (simp add: sell_shares_def)
    then have "e = (upper symb, n - int_value qty) \<or> e \<in> set (holdings acc)"
      using set_update_subset by fastforce
    with n le False show ?thesis by auto
  qed
qed

lemma deposit_holdings: "holdings (snd (deposit now amount acc)) = holdings acc"
  by (simp add: deposit_def record_transaction_def Let_def split: sum.splits)

lemma withdraw_holdings: "holdings (snd (withdraw now amount acc)) = holdings acc"
  by (simp add: withdraw_def record_transaction_def Let_def split: sum.splits)

lemma holdings_wf_lookup:
  "holdings_wf acc \<Longrightarrow> 0 \<le> dict_get (holdings acc) k 0"
  by (auto simp: holdings_wf_def dict_get_def split: option.splits dest!: map_of_SomeD)

lemma perform_holdings_wf:
  assumes "holdings_wf acc"
  shows "holdings_wf (snd (perform c acc))"
proof (cases c)
  case (Deposit now amount)
  with assms show ?thesis by (simp add: holdings_wf_def deposit_holdings)
next
  case (Withdraw now amount)
  with assms show ?thesis by (simp add: holdings_wf_def withdraw_holdings)
next
  case (Buy now symb qty)
  have "0 < v \<and> upper k = k \<and> (\<exists>p. get_share_price k = Inr p)"
    if "(k, v) \<in> set (holdings (snd (buy_shares now symb qty acc)))" for k v
    using buy_holdings [OF that] assms holdings_wf_lookup [OF assms, of "upper symb"]
    by (auto simp: holdings_wf_def upper_idem)
  with Buy show ?thesis by (auto simp: holdings_wf_def)
next
  case (Sell now symb qty)
  have "0 < v \<and> upper k = k \<and> (\<exists>p. get_share_price k = Inr p)"
    if "(k, v) \<in> set (holdings (snd (sell_shares now symb qty acc)))" for k v
    using sell_holdings [OF that] assms
    by (auto simp: holdings_wf_def upper_idem dest!: map_of_SomeD)
  with Sell show ?thesis by (auto simp: holdings_wf_def)
qed

lemma run_holdings_wf: "holdings_wf acc \<Longrightarrow> holdings_wf (run cs acc)"
  by (induction cs arbitrary: acc) (simp_all add: perform_holdings_wf)

lemma new_holdings_wf: "holdings_wf (run cs (Account uid))"
  by (rule run_holdings_wf) (simp add: holdings_wf_def Account_def)

lemma sell_owned:
  assumes wf: "holdings_wf acc" and n: "map_of (holdings acc) (upper symb) = Some n"
    and m: "0 < m" "m \<le> n"
  shows "case float_of_int m of
           Inr f \<Rightarrow>
             fst (sell_shares now symb (PyInt m) acc) = Inr () \<and>
             map_of (holdings (snd (sell_shares now symb (PyInt m) acc))) (upper symb) =
               (if m = n then None else Some (n - m)) \<and>
             (m = n \<longrightarrow> upper symb \<notin> fst ` set (holdings (snd (sell_shares now symb (PyInt m) acc))))
         | Inl e \<Rightarrow> sell_shares now symb (PyInt m) acc = (Inl OverflowError, acc)"
proof -
  from n have "(upper symb, n) \<in> set (holdings acc)" by (rule map_of_SomeD)
  with wf obtain p where p: "get_share_price (upper symb) = Inr p"
    by (auto simp: holdings_wf_def)
  show ?thesis
  proof (cases "float_of_int m")
    case (Inl e)
    then have "e = OverflowError" using float_of_int_cases [of m] by auto
    with Inl show ?thesis
      using sell_overflow [where pr = get_share_price and qty = "PyInt m", OF p _ _ n, of e now] m
      by (simp add: sell_shares_def)
  next
    case (Inr f)
    note s = sell_success [where pr = get_share_price and qty = "PyInt m", OF p _ _ n, of f now]
    show ?thesis
    proof (cases "m = n")
      case True
      have "sell_shares now symb (PyInt n) acc =
          (Inr (), acc\<lparr>cash_balance := float_add (cash_balance acc) (float_mul p f),
             holdings := AList.delete (upper symb) (AList.update (upper symb) 0 (holdings acc)),
             transactions := transactions acc @
              [\<lparr>timestamp = now, trans_type = ''SELL'', symbol = Some (upper symb),
                quantity = Some n, price_per_share = Some p,
                total_value = PyFloat (float_mul p f)\<rparr>]\<rparr>)"
        using s m Inr True by (simp add: sell_shares_def)
      with Inr True show ?thesis by (simp add: delete_conv' delete_notin_dom)
    next
      case False
      with s m Inr show ?thesis by (simp add: sell_shares_def update_conv')
    qed
  qed
qed

text \<open>
  Claim C2. In every state that a sequence of calls reaches from a new account, every
  holdings entry has a quantity greater than zero. In such a state, selling exactly the
  owned quantity of a symbol leaves no key for the symbol in the holdings, and selling a
  smaller positive quantity leaves the entry with the difference. These sales return
  normally whenever the quantity converts to a float, which every quantity below
  \<open>2^1023\<close> does; for a larger one \<^verbatim>\<open>price * quantity\<close> may raise \<^verbatim>\<open>OverflowError\<close>, and
  then nothing is sold and the account is unchanged.
\<close>

theorem holdings_quantities_positive:
  "(\<forall>(k, v) \<in> set (holdings (run cs (Account uid))). 0 < v)
   \<and> (map_of (holdings (run cs (Account uid))) (upper symb) = Some n \<longrightarrow>
        (case float_of_int n of
           Inr f \<Rightarrow>
             fst (sell_shares now symb (PyInt n) (run cs (Account uid))) = Inr () \<and>
             upper symb \<notin> fst ` set (holdings (snd (sell_shares now symb (PyInt n)
                                                      (run cs (Account uid)))))
         | Inl e \<Rightarrow>
             sell_shares now symb (PyInt n) (run cs (Account uid)) =
               (Inl OverflowError, run cs (Account uid))))
   \<and> (map_of (holdings (run cs (Account uid))) (upper symb) = Some n \<and> 0 < m \<and> m < n \<longrightarrow>
        (case float_of_int m of
           Inr f \<Rightarrow>
             fst (sell_shares now symb (PyInt m) (run cs (Account uid))) = Inr () \<and>
             map_of (holdings (snd (sell_shares now symb (PyInt m) (run cs (Account uid)))))
               (upper symb) = Some (n - m)
         | Inl e \<Rightarrow>
             sell_shares now symb (PyInt m) (run cs (Account uid)) =
               (Inl OverflowError, run cs (Account uid))))
   \<and> (\<bar>j\<bar> < 2 ^ 1023 \<longrightarrow> (\<exists>r. float_of_int j = Inr (Fin r)))"
proof -
  let ?acc = "run cs (Account uid)"
  have wf: "holdings_wf ?acc" by (rule new_holdings_wf)
  have pos: "\<forall>(k, v) \<in> set (holdings ?acc). 0 < v"
    using wf by (auto simp: holdings_wf_def)
  have all: "case float_of_int n of
           Inr f \<Rightarrow>
             fst (sell_shares now symb (PyInt n) ?acc) = Inr () \<and>
             upper symb \<notin> fst ` set (holdings (snd (sell_shares now symb (PyInt n) ?acc)))
         | Inl e \<Rightarrow> sell_shares now symb (PyInt n) ?acc = (Inl OverflowError, ?acc)"
    if n: "map_of (holdings ?acc) (upper symb) = Some n"
  proof -
    from n have "(upper symb, n) \<in> set (holdings ?acc)" by (rule map_of_SomeD)
    with wf have "0 < n" by (auto simp: holdings_wf_def)
    then show ?thesis
      using sell_owned [OF wf n, of n now] by (simp split: sum.splits)
  qed
  have part: "case float_of_int m of
           Inr f \<Rightarrow>
             fst (sell_shares now symb (PyInt m) ?acc) = Inr () \<and>
             map_of (holdings (snd (sell_shares now symb (PyInt m) ?acc))) (upper symb)
               = Some (n - m)
         | Inl e \<Rightarrow> sell_shares now symb (PyInt m) ?acc = (Inl OverflowError, ?acc)"
    if n: "map_of (holdings ?acc) (upper symb) = Some n" and m: "0 < m" "m < n"
    using sell_owned [OF wf n, of m now] m by (simp split: sum.splits)
  from pos all part float_of_int_finite [of j] show ?thesis by blast
qed

theorem holdings_quantities_positive_witness:
  "holdings (run [Deposit 7 (PyInt 10000), Buy 8 ''aapl'' (PyInt 10)] (Account ''u''))
     = [(''AAPL'', 10)]
   \<and> (0::int) < 10
   \<and> map_of (holdings (run [Deposit 7 (PyInt 10000), Buy 8 ''aapl'' (PyInt 10)] (Account ''u'')))
        (upper ''aapl'') = Some 10
   \<and> float_of_int 10 = Inr (Fin 10)
   \<and> fst (sell_shares 9 ''aapl'' (PyInt 10)
        (run [Deposit 7 (PyInt 10000), Buy 8 ''aapl'' (PyInt 10)] (Account ''u''))) = Inr ()
   \<and> ''AAPL'' \<notin> fst ` set (holdings (snd (sell_shares 9 ''aapl'' (PyInt 10)
        (run [Deposit 7 (PyInt 10000), Buy 8 ''aapl'' (PyInt 10)] (Account ''u'')))))
   \<and> (0::int) < 4 \<and> (4::int) < 10
   \<and> float_of_int 4 = Inr (Fin 4)
   \<and> map_of (holdings (snd (sell_shares 9 ''aapl'' (PyInt 4)
        (run [Deposit 7 (PyInt 10000), Buy 8 ''aapl'' (PyInt 10)] (Account ''u''))))) ''AAPL''
      = Some 6
   \<and> \<bar>4::int\<bar> < 2 ^ 1023"
proof -
  define acc0 where
    "acc0 = run [Deposit 7 (PyInt 10000), Buy 8 ''aapl'' (PyInt 10)] (Account ''u'')"
  have h: "holdings acc0 = [(''AAPL'', 10)]"
    unfolding acc0_def by code_simp
  have u: "upper ''aapl'' = ''AAPL''"
    by code_simp
  have f10: "float_of_int 10 = Inr (Fin 10)" and f4: "float_of_int 4 = Inr (Fin 4)"
    by code_simp+
  note t = holdings_quantities_positive
    [of "[Deposit 7 (PyInt 10000), Buy 8 ''aapl'' (PyInt 10)]" "''u''" "''aapl''" 10 9 4 4,
     folded acc0_def]
  show ?thesis
    unfolding acc0_def [symmetric] using t by (simp add: h u f10 f4)
qed

subsection \<open>Upper-case symbols\<close>

lemma deposit_trades:
  "trades_normalized acc \<Longrightarrow> trades_normalized (snd (deposit now amount acc))"
  by (auto simp: trades_normalized_def deposit_def record_transaction_def Let_def
        split: sum.splits)

lemma withdraw_trades:
  "trades_normalized acc \<Longrightarrow> trades_normalized (snd (withdraw now amount acc))"
  by (auto simp: trades_normalized_def withdraw_def record_transaction_def Let_def
        split: sum.splits)

lemma buy_trades:
  "trades_normalized acc \<Longrightarrow> trades_normalized (snd (buy_shares now symb qty acc))"
  by (auto simp: trades_normalized_def buy_shares_def buy_shares_via_def
        record_transaction_def Let_def upper_idem split: sum.splits)

lemma sell_trades:
  "trades_normalized acc \<Longrightarrow> trades_normalized (snd (sell_shares now symb qty acc))"
  by (auto simp: trades_normalized_def sell_shares_def sell_shares_via_def
        record_transaction_def Let_def upper_idem split: sum.splits option.splits)

lemma perform_trades:
  "trades_normalized acc \<Longrightarrow> trades_normalized (snd (perform c acc))"
  by (cases c) (simp_all add: deposit_trades withdraw_trades buy_trades sell_trades)

lemma run_trades: "trades_normalized acc \<Longrightarrow> trades_normalized (run cs acc)"
  by (induction cs arbitrary: acc) (simp_all add: perform_trades)

lemma buy_via_upper:
  "buy_shares_via pr now (upper symb) qty acc = buy_shares_via pr now symb qty acc"
  by (simp add: buy_shares_via_def upper_idem)

lemma sell_via_upper:
  "sell_shares_via pr now (upper symb) qty acc = sell_shares_via pr now symb qty acc"
  by (simp add: sell_shares_via_def upper_idem)

text \<open>
  Claim C10. In every state that a sequence of calls reaches from a new account, every
  key of the holdings equals its own upper-casing, and every BUY or SELL record stores a
  symbol that equals its own upper-casing. In any state, buy_shares and sell_shares
  called with a symbol give the same outcome and the same account as the same call with
  the symbol upper-cased.
\<close>

theorem symbols_normalized:
  "(\<forall>(k, v) \<in> set (holdings (run cs (Account uid))). upper k = k)
   \<and> (\<forall>t \<in> set (transactions (run cs (Account uid))).
        trans_type t = ''BUY'' \<or> trans_type t = ''SELL'' \<longrightarrow>
        (\<exists>k. symbol t = Some k \<and> upper k = k))
   \<and> buy_shares now symb qty acc = buy_shares now (upper symb) qty acc
   \<and> sell_shares now symb qty acc = sell_shares now (upper symb) qty acc"
proof -
  have "holdings_wf (run cs (Account uid))"
    by (rule new_holdings_wf)
  then have keys: "\<forall>(k, v) \<in> set (holdings (run cs (Account uid))). upper k = k"
    by (auto simp: holdings_wf_def)
  have "trades_normalized (run cs (Account uid))"
    by (rule run_trades) (simp add: trades_normalized_def Account_def)
  then have recs: "\<forall>t \<in> set (transactions (run cs (Account uid))).
        trans_type t = ''BUY'' \<or> trans_type t = ''SELL'' \<longrightarrow>
        (\<exists>k. symbol t = Some k \<and> upper k = k)"
    by (simp add: trades_normalized_def)
  from keys recs show ?thesis
    by (simp add: buy_shares_def sell_shares_def buy_via_upper sell_via_upper)
qed

theorem symbols_normalized_witness:
  "holdings (run [Deposit 7 (PyInt 10000), Buy 8 ''aapl'' (PyInt 10),
        Sell 9 ''Aapl'' (PyInt 4)] (Account ''u'')) = [(''AAPL'', 6)]
   \<and> upper ''AAPL'' = ''AAPL''
   \<and> map (\<lambda>t. (trans_type t, symbol t)) (transactions (run [Deposit 7 (PyInt 10000),
        Buy 8 ''aapl'' (PyInt 10), Sell 9 ''Aapl'' (PyInt 4)] (Account ''u'')))
      = [(''DEPOSIT'', None), (''BUY'', Some ''AAPL''), (''SELL'', Some ''AAPL'')]
   \<and> buy_shares 8 ''aapl'' (PyInt 10) (snd (deposit 7 (PyInt 10000) (Account ''u'')))
      = buy_shares 8 ''AAPL'' (PyInt 10) (snd (deposit 7 (PyInt 10000) (Account ''u'')))"
proof -
  define acc0 where "acc0 = run [Deposit 7 (PyInt 10000), Buy 8 ''aapl'' (PyInt 10),
        Sell 9 ''Aapl'' (PyInt 4)] (Account ''u'')"
  have h: "holdings acc0 = [(''AAPL'', 6)]"
    unfolding acc0_def by code_simp
  have m: "map (\<lambda>t. (trans_type t, symbol t)) (transactions acc0)
      = [(''DEPOSIT'', None), (''BUY'', Some ''AAPL''), (''SELL'', Some ''AAPL'')]"
    unfolding acc0_def by code_simp
  have u: "upper ''aapl'' = ''AAPL''"
    by code_simp
  note t = symbols_normalized
    [of "[Deposit 7 (PyInt 10000), Buy 8 ''aapl'' (PyInt 10), Sell 9 ''Aapl'' (PyInt 4)]" "''u''"
      8 "''aapl''" "PyInt 10" "snd (deposit 7 (PyInt 10000) (Account ''u''))", folded acc0_def]
  show ?thesis
    unfolding acc0_def [symmetric] using t h m u by simp
qed

subsection \<open>Copies returned by the accessors\<close>

text \<open>The object-level constructor and deposit agree with the ones on account states.\<close>

lemma Account_obj_view:
  "view (snd (Account_obj uid \<sigma>)) (fst (Account_obj uid \<sigma>)) = Account uid"
  by (simp add: Account_obj_def view_def Account_def Let_def)

lemma Account_obj_allocated:
  "allocated (snd (Account_obj uid \<sigma>)) (fst (Account_obj uid \<sigma>))"
  by (simp add: Account_obj_def allocated_def Let_def)

lemma deposit_obj_view:
  assumes "allocated \<sigma> a"
  shows "(case deposit_obj now amount \<sigma> a of (out, \<sigma>', a') \<Rightarrow> (out, view \<sigma>' a'))
           = deposit now amount (view \<sigma> a)"
proof -
  have "fresh \<sigma> \<notin> set (lists \<sigma> (o_transactions a))"
    using assms by (auto simp: allocated_def)
  then have "map ((records \<sigma>)(fresh \<sigma> := t)) (lists \<sigma> (o_transactions a))
      = map (records \<sigma>) (lists \<sigma> (o_transactions a))" for t
    by (simp cong: map_cong)
  then show ?thesis
    by (simp add: deposit_obj_def deposit_def record_transaction_obj_def
          record_transaction_def view_def Let_def split: sum.splits)
qed

lemma returned_holdings_view: "returned_holdings \<sigma> a = holdings (view \<sigma> a)"
  by (simp add: returned_holdings_def get_holdings_def view_def)

lemma returned_history_view: "returned_history \<sigma> a = transactions (view \<sigma> a)"
  by (simp add: returned_history_def get_transaction_history_def view_def)

lemma get_holdings_frame:
  assumes "allocated \<sigma> a"
  shows "view (mutate_dict (fst (get_holdings \<sigma> a)) d (snd (get_holdings \<sigma> a))) a = view \<sigma> a"
  using assms by (auto simp: allocated_def get_holdings_def mutate_dict_def view_def)

lemma get_transaction_history_frame:
  assumes "allocated \<sigma> a"
  shows "view (mutate_list (fst (get_transaction_history \<sigma> a)) xs
                  (snd (get_transaction_history \<sigma> a))) a = view \<sigma> a"
  using assms by (auto simp: allocated_def get_transaction_history_def mutate_list_def view_def)

text \<open>
  Claim C9, as the code has it. get_holdings and get_transaction_history return new
  container objects whose contents are the account's holdings and transaction records.
  Whatever the caller then does to the returned dict or to the returned list itself
  (inserting, deleting or replacing entries: any new contents), the state of the
  account and the results of later get_holdings and get_transaction_history calls are
  as before. The copies are shallow: the statement does not cover changes made to the
  transaction records that the returned list refers to.
\<close>

theorem accessors_return_fresh_containers:
  assumes "allocated \<sigma> a"
  shows "returned_holdings \<sigma> a = holdings (view \<sigma> a)
       \<and> returned_history \<sigma> a = transactions (view \<sigma> a)
       \<and> (\<forall>d. let \<sigma>' = mutate_dict (fst (get_holdings \<sigma> a)) d (snd (get_holdings \<sigma> a)) in
              view \<sigma>' a = view \<sigma> a \<and>
              returned_holdings \<sigma>' a = returned_holdings \<sigma> a \<and>
              returned_history \<sigma>' a = returned_history \<sigma> a)
       \<and> (\<forall>xs. let \<sigma>' = mutate_list (fst (get_transaction_history \<sigma> a)) xs
                           (snd (get_transaction_history \<sigma> a)) in
              view \<sigma>' a = view \<sigma> a \<and>
              returned_holdings \<sigma>' a = returned_holdings \<sigma> a \<and>
              returned_history \<sigma>' a = returned_history \<sigma> a)"
  using get_holdings_frame [OF assms] get_transaction_history_frame [OF assms]
  by (simp add: returned_holdings_view returned_history_view Let_def)

lemma float_of_int_10000: "float_of_int 10000 = Inr (Fin 10000)"
  by code_simp

lemma round_10000: "round_to_double 10000 = Fin 10000"
  by code_simp

lemma demo_view:
  "view demo_store demo_account =
     \<lparr>user_id = ''demo_user'', cash_balance = Fin 10000, total_deposits = Fin 10000,
      holdings = [],
      transactions = [\<lparr>timestamp = 0, trans_type = ''DEPOSIT'', symbol = None,
        quantity = None, price_per_share = None, total_value = PyInt 10000\<rparr>]\<rparr>"
  by (simp add: demo_store_def demo_account_def Account_obj_def deposit_obj_def
        record_transaction_obj_def empty_store_def view_def Let_def
        float_of_int_10000 round_10000)

lemma demo_allocated: "allocated demo_store demo_account"
  by (simp add: demo_store_def demo_account_def Account_obj_def deposit_obj_def
        record_transaction_obj_def empty_store_def allocated_def Let_def
        float_of_int_10000 round_10000)

theorem accessors_return_fresh_containers_witness:
  "allocated demo_store demo_account
   \<and> returned_holdings demo_store demo_account = []
   \<and> view (mutate_dict (fst (get_holdings demo_store demo_account)) [(''NEW'', 99)]
             (snd (get_holdings demo_store demo_account))) demo_account
       = view demo_store demo_account
   \<and> returned_holdings (mutate_dict (fst (get_holdings demo_store demo_account)) [(''NEW'', 99)]
             (snd (get_holdings demo_store demo_account))) demo_account = []
   \<and> returned_history (mutate_list (fst (get_transaction_history demo_store demo_account)) []
             (snd (get_transaction_history demo_store demo_account))) demo_account
       = [\<lparr>timestamp = 0, trans_type = ''DEPOSIT'', symbol = None,
           quantity = None, price_per_share = None, total_value = PyInt 10000\<rparr>]"
  using demo_allocated accessors_return_fresh_containers [OF demo_allocated]
  by (simp add: Let_def demo_view)

text \<open>
  Claim C9 as stated also covers the records contained in the returned list. It fails
  there: the list returned by get_transaction_history refers to the account's own
  record objects. In the account of \<^verbatim>\<open>app.py\<close> after its initial deposit, the call returns
  a new list (address 3) whose only element is the account's deposit record (address 2);
  when the caller sets \<^verbatim>\<open>total_value\<close> of that record to 5, the account's transaction
  history and the result of the next get_transaction_history call show 5 instead of 10000.
\<close>

theorem history_records_shared_counterexample:
  "fst (get_transaction_history demo_store demo_account) = 3
   \<and> lists (snd (get_transaction_history demo_store demo_account)) 3 = [2]
   \<and> returned_history demo_store demo_account =
       [\<lparr>timestamp = 0, trans_type = ''DEPOSIT'', symbol = None,
         quantity = None, price_per_share = None, total_value = PyInt 10000\<rparr>]
   \<and> returned_history
        (mutate_record 2
           \<lparr>timestamp = 0, trans_type = ''DEPOSIT'', symbol = None,
            quantity = None, price_per_share = None, total_value = PyInt 5\<rparr>
           (snd (get_transaction_history demo_store demo_account))) demo_account =
       [\<lparr>timestamp = 0, trans_type = ''DEPOSIT'', symbol = None,
         quantity = None, price_per_share = None, total_value = PyInt 5\<rparr>]
   \<and> view (mutate_record 2
           \<lparr>timestamp = 0, trans_type = ''DEPOSIT'', symbol = None,
            quantity = None, price_per_share = None, total_value = PyInt 5\<rparr>
           (snd (get_transaction_history demo_store demo_account))) demo_account
       \<noteq> view demo_store demo_account"
  by (simp add: demo_store_def demo_account_def Account_obj_def deposit_obj_def
        record_transaction_obj_def empty_store_def view_def Let_def
        get_transaction_history_def returned_history_def mutate_record_def
        float_of_int_10000 round_10000)

subsection \<open>The cash balance\<close>

lemma amount_nonneg:
  assumes "exact_value amount = Inr x" and "\<not> float_le x (Fin 0)" and "as_float amount = Inr a"
  shows "a = NaN \<or> float_le (Fin 0) a"
proof (cases amount)
  case (PyInt n)
  with assms have "0 \<le> n" and "float_of_int n = Inr a" by auto
  then show ?thesis using float_of_int_nonneg by fastforce
next
  case (PyBool b)
  with assms show ?thesis by auto
next
  case (PyFloat f)
  with assms show ?thesis by (cases f) auto
qed (use assms in simp_all)

lemma amount_guard:
  assumes "exact_value amount = Inr x" and "as_float amount = Inr a"
    and "float_ok c" and "\<not> float_lt c x"
  shows "\<not> float_lt c a"
proof (cases amount)
  case (PyInt n)
  with assms have "x = Fin (of_int n)" and "round_to_double (of_int n) = a"
    by (auto simp: float_of_int_def split: pyfloat.splits)
  with assms(3,4) show ?thesis using round_below_double [of c "of_int n"] by simp
qed (use assms in auto)

lemma cost_nonneg:
  assumes "get_share_price s = Inr p" and "0 \<le> n" and "float_of_int n = Inr qf"
  shows "float_le (Fin 0) (float_mul p qf)"
proof -
  obtain r where r: "0 < r" "p = Fin r" using price_positive [OF assms(1)] by auto
  obtain y where y: "0 \<le> y" "qf = Fin y" using float_of_int_nonneg [OF assms(2,3)] by auto
  show ?thesis
    using float_mul_nonneg [of r y] r y by auto
qed

text \<open>The four methods, case by case.\<close>

lemma deposit_cases:
  "(\<exists>e. deposit now amount acc = (Inl e, acc)) \<or>
   (\<exists>x a. exact_value amount = Inr x \<and> \<not> float_le x (Fin 0) \<and> as_float amount = Inr a \<and>
      deposit now amount acc =
        (Inr (), acc\<lparr>cash_balance := float_add (cash_balance acc) a,
           total_deposits := float_add (total_deposits acc) a,
           transactions := transactions acc @
             [\<lparr>timestamp = now, trans_type = ''DEPOSIT'', symbol = None, quantity = None,
               price_per_share = None, total_value = amount\<rparr>]\<rparr>))"
  by (simp add: deposit_def record_transaction_def Let_def split: sum.splits)

lemma withdraw_cases:
  "(\<exists>e. withdraw now amount acc = (Inl e, acc)) \<or>
   (\<exists>x a. exact_value amount = Inr x \<and> \<not> float_le x (Fin 0) \<and>
      \<not> float_lt (cash_balance acc) x \<and> as_float amount = Inr a \<and>
      withdraw now amount acc =
        (Inr (), acc\<lparr>cash_balance := float_sub (cash_balance acc) a,
           transactions := transactions acc @
             [\<lparr>timestamp = now, trans_type = ''WITHDRAW'', symbol = None, quantity = None,
               price_per_share = None, total_value = amount\<rparr>]\<rparr>))"
  by (simp add: withdraw_def record_transaction_def Let_def split: sum.splits)

lemma buy_cases:
  "(\<exists>e. buy_shares_via pr now symb qty acc = (Inl e, acc)) \<or>
   (\<exists>p qf. isinstance_int qty \<and> 0 < int_value qty \<and> pr (upper symb) = Inr p \<and>
      float_of_int (int_value qty) = Inr qf \<and>
      \<not> float_lt (cash_balance acc) (float_mul p qf) \<and>
      buy_shares_via pr now symb qty acc =
        (Inr (), acc\<lparr>cash_balance := float_sub (cash_balance acc) (float_mul p qf),
           holdings := AList.update (upper symb)
             (dict_get (holdings acc) (upper symb) 0 + int_value qty) (holdings acc),
           transactions := transactions acc @
             [\<lparr>timestamp = now, trans_type = ''BUY'', symbol = Some (upper symb),
               quantity = Some (int_value qty), price_per_share = Some p,
               total_value = PyFloat (float_mul p qf)\<rparr>]\<rparr>))"
  by (simp add: buy_shares_via_def record_transaction_def Let_def split: sum.splits)

lemma sell_cases:
  "(\<exists>e. sell_shares_via pr now symb qty acc = (Inl e, acc)) \<or>
   (\<exists>p qf n. isinstance_int qty \<and> 0 < int_value qty \<and> pr (upper symb) = Inr p \<and>
      float_of_int (int_value qty) = Inr qf \<and>
      map_of (holdings acc) (upper symb) = Some n \<and> int_value qty \<le> n \<and>
      sell_shares_via pr now symb qty acc =
        (Inr (), acc\<lparr>cash_balance := float_add (cash_balance acc) (float_mul p qf),
           holdings :=
             (if n = int_value qty
              then AList.delete (upper symb) (AList.update (upper symb) 0 (holdings acc))
              else AList.update (upper symb) (n - int_value qty) (holdings acc)),
           transactions := transactions acc @
             [\<lparr>timestamp = now, trans_type = ''SELL'', symbol = Some (upper symb),
               quantity = Some (int_value qty), price_per_share = Some p,
               total_value = PyFloat (float_mul p qf)\<rparr>]\<rparr>))"
proof (cases "sell_shares_via pr now symb qty acc")
  case (Pair out acc')
  show ?thesis
  proof (cases out)
    case (Inl e)
    with Pair have "acc' = acc" using sell_outcome [of pr now symb qty acc] by auto
    with Pair Inl show ?thesis by simp
  next
    case (Inr u)
    with Pair have i: "isinstance_int qty" and q: "0 < int_value qty"
      by (auto simp: sell_shares_via_def split: if_splits)
    from Pair Inr i q have o: "\<not> dict_get (holdings acc) (upper symb) 0 < int_value qty"
      by (auto simp: sell_shares_via_def Let_def split: if_splits)
    with q obtain n where n: "map_of (holdings acc) (upper symb) = Some n" "int_value qty \<le> n"
      by (cases "map_of (holdings acc) (upper symb)") (auto simp: dict_get_def)
    from Pair Inr i q o obtain p where p: "pr (upper symb) = Inr p"
      by (cases "pr (upper symb)") (auto simp: sell_shares_via_def Let_def)
    from Pair Inr i q o p obtain qf where f: "float_of_int (int_value qty) = Inr qf"
      by (cases "float_of_int (int_value qty)") (auto simp: sell_shares_via_def Let_def)
    show ?thesis
      using sell_success [where pr = pr, OF p i q n f, of now] i q p f n by blast
  qed
qed

text \<open>
  What a call does to the two floats of the account: nothing, or it adds a float that is
  not below zero to the cash balance (deposit, sell_shares), or it subtracts one that
  passed the guard (withdraw, buy_shares).
\<close>

lemma deposit_effect:
  "snd (deposit now amount acc) = acc \<or>
   (\<exists>a. (a = NaN \<or> float_le (Fin 0) a) \<and>
      cash_balance (snd (deposit now amount acc)) = float_add (cash_balance acc) a \<and>
      total_deposits (snd (deposit now amount acc)) = float_add (total_deposits acc) a)"
  using deposit_cases [of now amount acc]
proof (elim disjE exE conjE)
  fix x a
  assume a: "exact_value amount = Inr x" "\<not> float_le x (Fin 0)" "as_float amount = Inr a"
    and d: "deposit now amount acc =
        (Inr (), acc\<lparr>cash_balance := float_add (cash_balance acc) a,
           total_deposits := float_add (total_deposits acc) a,
           transactions := transactions acc @
             [\<lparr>timestamp = now, trans_type = ''DEPOSIT'', symbol = None, quantity = None,
               price_per_share = None, total_value = amount\<rparr>]\<rparr>)"
  have "a = NaN \<or> float_le (Fin 0) a" using a by (rule amount_nonneg)
  then show ?thesis by (auto simp: d)
qed simp

lemma withdraw_effect:
  "snd (withdraw now amount acc) = acc \<or>
   (\<exists>a. (a = NaN \<or> float_le (Fin 0) a) \<and>
      (float_ok (cash_balance acc) \<longrightarrow> \<not> float_lt (cash_balance acc) a) \<and>
      cash_balance (snd (withdraw now amount acc)) = float_sub (cash_balance acc) a \<and>
      total_deposits (snd (withdraw now amount acc)) = total_deposits acc)"
  using withdraw_cases [of now amount acc]
proof (elim disjE exE conjE)
  fix x a
  assume a: "exact_value amount = Inr x" "\<not> float_le x (Fin 0)" "as_float amount = Inr a"
    and g: "\<not> float_lt (cash_balance acc) x"
    and d: "withdraw now amount acc =
        (Inr (), acc\<lparr>cash_balance := float_sub (cash_balance acc) a,
           transactions := transactions acc @
             [\<lparr>timestamp = now, trans_type = ''WITHDRAW'', symbol = None, quantity = None,
               price_per_share = None, total_value = amount\<rparr>]\<rparr>)"
  have "a = NaN \<or> float_le (Fin 0) a" using a by (rule amount_nonneg)
  moreover have "\<not> float_lt (cash_balance acc) a" if "float_ok (cash_balance acc)"
    using a(1,3) that g by (rule amount_guard)
  ultimately show ?thesis by (auto simp: d)
qed simp

lemma buy_effect:
  "snd (buy_shares now symb qty acc) = acc \<or>
   (\<exists>a. float_le (Fin 0) a \<and> \<not> float_lt (cash_balance acc) a \<and>
      cash_balance (snd (buy_shares now symb qty acc)) = float_sub (cash_balance acc) a \<and>
      total_deposits (snd (buy_shares now symb qty acc)) = total_deposits acc)"
  using buy_cases [of get_share_price now symb qty acc]
proof (elim disjE exE conjE)
  fix p qf
  assume a: "get_share_price (upper symb) = Inr p" "0 < int_value qty"
      "float_of_int (int_value qty) = Inr qf"
    and g: "\<not> float_lt (cash_balance acc) (float_mul p qf)"
    and d: "buy_shares_via get_share_price now symb qty acc =
        (Inr (), acc\<lparr>cash_balance := float_sub (cash_balance acc) (float_mul p qf),
           holdings := AList.update (upper symb)
             (dict_get (holdings acc) (upper symb) 0 + int_value qty) (holdings acc),
           transactions := transactions acc @
             [\<lparr>timestamp = now, trans_type = ''BUY'', symbol = Some (upper symb),
               quantity = Some (int_value qty), price_per_share = Some p,
               total_value = PyFloat (float_mul p qf)\<rparr>]\<rparr>)"
  have "float_le (Fin 0) (float_mul p qf)" using a by (intro cost_nonneg) simp_all
  with g show ?thesis by (auto simp: buy_shares_def d)
qed (simp add: buy_shares_def)

lemma sell_effect:
  "snd (sell_shares now symb qty acc) = acc \<or>
   (\<exists>a. float_le (Fin 0) a \<and>
      cash_balance (snd (sell_shares now symb qty acc)) = float_add (cash_balance acc) a \<and>
      total_deposits (snd (sell_shares now symb qty acc)) = total_deposits acc)"
  using sell_cases [of get_share_price now symb qty acc]
proof (elim disjE exE conjE)
  fix p qf n
  assume a: "get_share_price (upper symb) = Inr p" "0 < int_value qty"
      "float_of_int (int_value qty) = Inr qf"
    and d: "sell_shares_via get_share_price now symb qty acc =
        (Inr (), acc\<lparr>cash_balance := float_add (cash_balance acc) (float_mul p qf),
           holdings :=
             (if n = int_value qty
              then AList.delete (upper symb) (AList.update (upper symb) 0 (holdings acc))
              else AList.update (upper symb) (n - int_value qty) (holdings acc)),
           transactions := transactions acc @
             [\<lparr>timestamp = now, trans_type = ''SELL'', symbol = Some (upper symb),
               quantity = Some (int_value qty), price_per_share = Some p,
               total_value = PyFloat (float_mul p qf)\<rparr>]\<rparr>)"
  have "float_le (Fin 0) (float_mul p qf)" using a by (intro cost_nonneg) simp_all
  then show ?thesis by (auto simp: sell_shares_def d)
qed (simp add: sell_shares_def)

lemma same_or_NaN: "a = NaN \<or> float_le a a"
  using float_le_refl [of a] by auto

lemma zero_is_double: "is_double 0"
  by (simp add: is_double_def round_to_double_def)

text \<open>The floats of an account stay binary64 numbers, infinities or NaN.\<close>

lemma deposit_floats_ok:
  assumes "floats_ok acc"
  shows "floats_ok (snd (deposit now amount acc))"
  using deposit_effect [of now amount acc]
proof
  assume "snd (deposit now amount acc) = acc"
  with assms show ?thesis by simp
next
  assume "\<exists>a. (a = NaN \<or> float_le (Fin 0) a) \<and>
      cash_balance (snd (deposit now amount acc)) = float_add (cash_balance acc) a \<and>
      total_deposits (snd (deposit now amount acc)) = float_add (total_deposits acc) a"
  then show ?thesis by (auto simp: floats_ok_def)
qed

lemma withdraw_floats_ok:
  assumes "floats_ok acc"
  shows "floats_ok (snd (withdraw now amount acc))"
  using withdraw_effect [of now amount acc]
proof
  assume "snd (withdraw now amount acc) = acc"
  with assms show ?thesis by simp
next
  assume "\<exists>a. (a = NaN \<or> float_le (Fin 0) a) \<and>
      (float_ok (cash_balance acc) \<longrightarrow> \<not> float_lt (cash_balance acc) a) \<and>
      cash_balance (snd (withdraw now amount acc)) = float_sub (cash_balance acc) a \<and>
      total_deposits (snd (withdraw now amount acc)) = total_deposits acc"
  then obtain a where
    "cash_balance (snd (withdraw now amount acc)) = float_sub (cash_balance acc) a"
    "total_deposits (snd (withdraw now amount acc)) = total_deposits acc" by blast
  with assms show ?thesis by (simp add: floats_ok_def)
qed

lemma buy_floats_ok:
  assumes "floats_ok acc"
  shows "floats_ok (snd (buy_shares now symb qty acc))"
  using buy_effect [of now symb qty acc]
proof
  assume "snd (buy_shares now symb qty acc) = acc"
  with assms show ?thesis by simp
next
  assume "\<exists>a. float_le (Fin 0) a \<and> \<not> float_lt (cash_balance acc) a \<and>
      cash_balance (snd (buy_shares now symb qty acc)) = float_sub (cash_balance acc) a \<and>
      total_deposits (snd (buy_shares now symb qty acc)) = total_deposits acc"
  then obtain a where
    "cash_balance (snd (buy_shares now symb qty acc)) = float_sub (cash_balance acc) a"
    "total_deposits (snd (buy_shares now symb qty acc)) = total_deposits acc" by blast
  with assms show ?thesis by (simp add: floats_ok_def)
qed

lemma sell_floats_ok:
  assumes "floats_ok acc"
  shows "floats_ok (snd (sell_shares now symb qty acc))"
  using sell_effect [of now symb qty acc]
proof
  assume "snd (sell_shares now symb qty acc) = acc"
  with assms show ?thesis by simp
next
  assume "\<exists>a. float_le (Fin 0) a \<and>
      cash_balance (snd (sell_shares now symb qty acc)) = float_add (cash_balance acc) a \<and>
      total_deposits (snd (sell_shares now symb qty acc)) = total_deposits acc"
  then obtain a where
    "cash_balance (snd (sell_shares now symb qty acc)) = float_add (cash_balance acc) a"
    "total_deposits (snd (sell_shares now symb qty acc)) = total_deposits acc" by blast
  with assms show ?thesis by (simp add: floats_ok_def)
qed

lemma perform_floats_ok: "floats_ok acc \<Longrightarrow> floats_ok (snd (perform c acc))"
  by (cases c)
    (simp_all add: deposit_floats_ok withdraw_floats_ok buy_floats_ok sell_floats_ok)

lemma run_floats_ok: "floats_ok acc \<Longrightarrow> floats_ok (run cs acc)"
  by (induction cs arbitrary: acc) (simp_all add: perform_floats_ok)

lemma new_floats_ok: "floats_ok (run cs (Account uid))"
  by (rule run_floats_ok) (simp add: floats_ok_def Account_def zero_is_double)

text \<open>One call: the direction in which the cash balance moves.\<close>

lemma deposit_cash:
  assumes "float_ok (cash_balance acc)"
  shows "cash_balance (snd (deposit now amount acc)) = NaN \<or>
         float_le (cash_balance acc) (cash_balance (snd (deposit now amount acc)))"
  using deposit_effect [of now amount acc]
proof
  assume "snd (deposit now amount acc) = acc"
  then show ?thesis using same_or_NaN [of "cash_balance acc"] by simp
next
  assume "\<exists>a. (a = NaN \<or> float_le (Fin 0) a) \<and>
      cash_balance (snd (deposit now amount acc)) = float_add (cash_balance acc) a \<and>
      total_deposits (snd (deposit now amount acc)) = float_add (total_deposits acc) a"
  then obtain a where a: "a = NaN \<or> float_le (Fin 0) a"
    and c: "cash_balance (snd (deposit now amount acc)) = float_add (cash_balance acc) a"
    by blast
  show ?thesis unfolding c using assms a by (rule float_add_nonneg_ge)
qed

lemma sell_cash:
  assumes "float_ok (cash_balance acc)"
  shows "cash_balance (snd (sell_shares now symb qty acc)) = NaN \<or>
         float_le (cash_balance acc) (cash_balance (snd (sell_shares now symb qty acc)))"
  using sell_effect [of now symb qty acc]
proof
  assume "snd (sell_shares now symb qty acc) = acc"
  then show ?thesis using same_or_NaN [of "cash_balance acc"] by simp
next
  assume "\<exists>a. float_le (Fin 0) a \<and>
      cash_balance (snd (sell_shares now symb qty acc)) = float_add (cash_balance acc) a \<and>
      total_deposits (snd (sell_shares now symb qty acc)) = total_deposits acc"
  then obtain a where a: "float_le (Fin 0) a"
    and c: "cash_balance (snd (sell_shares now symb qty acc)) = float_add (cash_balance acc) a"
    by blast
  from a have "a = NaN \<or> float_le (Fin 0) a" ..
  with assms show ?thesis unfolding c by (rule float_add_nonneg_ge)
qed

lemma withdraw_cash:
  assumes "float_ok (cash_balance acc)"
  shows "cash_balance (snd (withdraw now amount acc)) = NaN \<or>
         float_le (cash_balance (snd (withdraw now amount acc))) (cash_balance acc)"
  using withdraw_effect [of now amount acc]
proof
  assume "snd (withdraw now amount acc) = acc"
  then show ?thesis using same_or_NaN [of "cash_balance acc"] by simp
next
  assume "\<exists>a. (a = NaN \<or> float_le (Fin 0) a) \<and>
      (float_ok (cash_balance acc) \<longrightarrow> \<not> float_lt (cash_balance acc) a) \<and>
      cash_balance (snd (withdraw now amount acc)) = float_sub (cash_balance acc) a \<and>
      total_deposits (snd (withdraw now amount acc)) = total_deposits acc"
  then obtain a where a: "a = NaN \<or> float_le (Fin 0) a"
    and c: "cash_balance (snd (withdraw now amount acc)) = float_sub (cash_balance acc) a"
    by blast
  show ?thesis unfolding c using assms a by (rule float_sub_nonneg_le)
qed

lemma buy_cash:
  assumes "float_ok (cash_balance acc)"
  shows "cash_balance (snd (buy_shares now symb qty acc)) = NaN \<or>
         float_le (cash_balance (snd (buy_shares now symb qty acc))) (cash_balance acc)"
  using buy_effect [of now symb qty acc]
proof
  assume "snd (buy_shares now symb qty acc) = acc"
  then show ?thesis using same_or_NaN [of "cash_balance acc"] by simp
next
  assume "\<exists>a. float_le (Fin 0) a \<and> \<not> float_lt (cash_balance acc) a \<and>
      cash_balance (snd (buy_shares now symb qty acc)) = float_sub (cash_balance acc) a \<and>
      total_deposits (snd (buy_shares now symb qty acc)) = total_deposits acc"
  then obtain a where a: "float_le (Fin 0) a"
    and c: "cash_balance (snd (buy_shares now symb qty acc)) = float_sub (cash_balance acc) a"
    by blast
  from a have "a = NaN \<or> float_le (Fin 0) a" ..
  with assms show ?thesis unfolding c by (rule float_sub_nonneg_le)
qed

text \<open>One call: the cash balance does not go below zero.\<close>

lemma deposit_cash_nonneg:
  assumes "cash_balance acc = NaN \<or> float_le (Fin 0) (cash_balance acc)"
  shows "cash_balance (snd (deposit now amount acc)) = NaN \<or>
         float_le (Fin 0) (cash_balance (snd (deposit now amount acc)))"
  using deposit_effect [of now amount acc]
proof
  assume "snd (deposit now amount acc) = acc"
  with assms show ?thesis by simp
next
  assume "\<exists>a. (a = NaN \<or> float_le (Fin 0) a) \<and>
      cash_balance (snd (deposit now amount acc)) = float_add (cash_balance acc) a \<and>
      total_deposits (snd (deposit now amount acc)) = float_add (total_deposits acc) a"
  then obtain a where a: "a = NaN \<or> float_le (Fin 0) a"
    and c: "cash_balance (snd (deposit now amount acc)) = float_add (cash_balance acc) a"
    by blast
  show ?thesis unfolding c using assms a by (rule float_add_nonneg)
qed

lemma sell_cash_nonneg:
  assumes "cash_balance acc = NaN \<or> float_le (Fin 0) (cash_balance acc)"
  shows "cash_balance (snd (sell_shares now symb qty acc)) = NaN \<or>
         float_le (Fin 0) (cash_balance (snd (sell_shares now symb qty acc)))"
  using sell_effect [of now symb qty acc]
proof
  assume "snd (sell_shares now symb qty acc) = acc"
  with assms show ?thesis by simp
next
  assume "\<exists>a. float_le (Fin 0) a \<and>
      cash_balance (snd (sell_shares now symb qty acc)) = float_add (cash_balance acc) a \<and>
      total_deposits (snd (sell_shares now symb qty acc)) = total_deposits acc"
  then obtain a where a: "float_le (Fin 0) a"
    and c: "cash_balance (snd (sell_shares now symb qty acc)) = float_add (cash_balance acc) a"
    by blast
  from a have "a = NaN \<or> float_le (Fin 0) a" ..
  with assms show ?thesis unfolding c by (rule float_add_nonneg)
qed

lemma withdraw_cash_nonneg:
  assumes "float_ok (cash_balance acc)"
    and "cash_balance acc = NaN \<or> float_le (Fin 0) (cash_balance acc)"
  shows "cash_balance (snd (withdraw now amount acc)) = NaN \<or>
         float_le (Fin 0) (cash_balance (snd (withdraw now amount acc)))"
  using withdraw_effect [of now amount acc]
proof
  assume "snd (withdraw now amount acc) = acc"
  with assms show ?thesis by simp
next
  assume "\<exists>a. (a = NaN \<or> float_le (Fin 0) a) \<and>
      (float_ok (cash_balance acc) \<longrightarrow> \<not> float_lt (cash_balance acc) a) \<and>
      cash_balance (snd (withdraw now amount acc)) = float_sub (cash_balance acc) a \<and>
      total_deposits (snd (withdraw now amount acc)) = total_deposits acc"
  then obtain a where g: "float_ok (cash_balance acc) \<longrightarrow> \<not> float_lt (cash_balance acc) a"
    and c: "cash_balance (snd (withdraw now amount acc)) = float_sub (cash_balance acc) a"
    by blast
  from g assms(1) have "\<not> float_lt (cash_balance acc) a" by simp
  then show ?thesis unfolding c by (rule float_sub_guarded_nonneg)
qed

lemma buy_cash_nonneg:
  assumes "cash_balance acc = NaN \<or> float_le (Fin 0) (cash_balance acc)"
  shows "cash_balance (snd (buy_shares now symb qty acc)) = NaN \<or>
         float_le (Fin 0) (cash_balance (snd (buy_shares now symb qty acc)))"
  using buy_effect [of now symb qty acc]
proof
  assume "snd (buy_shares now symb qty acc) = acc"
  with assms show ?thesis by simp
next
  assume "\<exists>a. float_le (Fin 0) a \<and> \<not> float_lt (cash_balance acc) a \<and>
      cash_balance (snd (buy_shares now symb qty acc)) = float_sub (cash_balance acc) a \<and>
      total_deposits (snd (buy_shares now symb qty acc)) = total_deposits acc"
  then obtain a where g: "\<not> float_lt (cash_balance acc) a"
    and c: "cash_balance (snd (buy_shares now symb qty acc)) = float_sub (cash_balance acc) a"
    by blast
  from g show ?thesis unfolding c by (rule float_sub_guarded_nonneg)
qed

lemma perform_cash_nonneg:
  assumes "floats_ok acc"
    and "cash_balance acc = NaN \<or> float_le (Fin 0) (cash_balance acc)"
  shows "cash_balance (snd (perform c acc)) = NaN \<or>
         float_le (Fin 0) (cash_balance (snd (perform c acc)))"
proof (cases c)
  case (Deposit now amount)
  then show ?thesis using deposit_cash_nonneg [OF assms(2), of now amount] by simp
next
  case (Withdraw now amount)
  have "float_ok (cash_balance acc)" using assms(1) by (simp add: floats_ok_def)
  then show ?thesis using Withdraw withdraw_cash_nonneg [OF _ assms(2), of now amount] by simp
next
  case (Buy now symb qty)
  then show ?thesis using buy_cash_nonneg [OF assms(2), of now symb qty] by simp
next
  case (Sell now symb qty)
  then show ?thesis using sell_cash_nonneg [OF assms(2), of now symb qty] by simp
qed

lemma run_cash_nonneg:
  assumes "floats_ok acc"
    and "cash_balance acc = NaN \<or> float_le (Fin 0) (cash_balance acc)"
  shows "cash_balance (run cs acc) = NaN \<or> float_le (Fin 0) (cash_balance (run cs acc))"
  using assms
proof (induction cs arbitrary: acc)
  case Nil
  then show ?case by simp
next
  case (Cons c cs)
  show ?case
    using Cons.IH [OF perform_floats_ok [OF Cons.prems(1)]
        perform_cash_nonneg [OF Cons.prems]]
    by simp
qed

lemma not_below_zero: "a = NaN \<or> float_le (Fin 0) a \<Longrightarrow> \<not> float_lt a (Fin 0)"
  by (cases a) auto

text \<open>
  Claim C1, as the code has it. In every state that a sequence of calls reaches from a
  new account the cash balance is never below zero: it is a number greater than or equal
  to zero, or positive infinity, or NaN. (It is NaN or infinite only after a balance has
  overflowed the float range, or after an infinite or NaN amount was passed in.) In such
  a state deposit and sell_shares never lower the cash balance and withdraw and
  buy_shares never raise it: the new balance is NaN or compares as stated with the old.
\<close>

theorem cash_balance_never_negative:
  "\<not> float_lt (cash_balance (run cs (Account uid))) (Fin 0)
   \<and> (cash_balance (run cs (Account uid)) = NaN \<or>
      float_le (Fin 0) (cash_balance (run cs (Account uid))))
   \<and> (cash_balance (snd (deposit now amount (run cs (Account uid)))) = NaN \<or>
      float_le (cash_balance (run cs (Account uid)))
        (cash_balance (snd (deposit now amount (run cs (Account uid))))))
   \<and> (cash_balance (snd (sell_shares now symb qty (run cs (Account uid)))) = NaN \<or>
      float_le (cash_balance (run cs (Account uid)))
        (cash_balance (snd (sell_shares now symb qty (run cs (Account uid))))))
   \<and> (cash_balance (snd (withdraw now amount (run cs (Account uid)))) = NaN \<or>
      float_le (cash_balance (snd (withdraw now amount (run cs (Account uid)))))
        (cash_balance (run cs (Account uid))))
   \<and> (cash_balance (snd (buy_shares now symb qty (run cs (Account uid)))) = NaN \<or>
      float_le (cash_balance (snd (buy_shares now symb qty (run cs (Account uid)))))
        (cash_balance (run cs (Account uid))))"
proof -
  let ?acc = "run cs (Account uid)"
  have ok: "floats_ok ?acc" by (rule new_floats_ok)
  then have c: "float_ok (cash_balance ?acc)" by (simp add: floats_ok_def)
  have n: "cash_balance ?acc = NaN \<or> float_le (Fin 0) (cash_balance ?acc)"
    by (rule run_cash_nonneg) (simp_all add: floats_ok_def Account_def zero_is_double)
  from n have "\<not> float_lt (cash_balance ?acc) (Fin 0)" by (rule not_below_zero)
  with n deposit_cash [OF c, of now amount] sell_cash [OF c, of now symb qty]
    withdraw_cash [OF c, of now amount] buy_cash [OF c, of now symb qty]
  show ?thesis by blast
qed

subsection \<open>Balances beyond the float range\<close>

lemma huge_pos: "0 < huge"
  by (simp add: huge_def)

lemma huge_rat: "(of_int huge :: rat) = 2 powi 1023"
  by (simp add: huge_def)

lemma huge_rat_pos: "0 < (of_int huge :: rat)"
  using huge_pos by simp

lemma round_huge: "round_to_double (of_int huge) = Fin (of_int huge)"
  unfolding huge_rat by (rule two_powi_is_double) simp_all

lemma float_of_int_huge: "float_of_int huge = Inr (Fin (of_int huge))"
  by (simp add: float_of_int_def round_huge)

lemma round_two_huge: "round_to_double (of_int huge + of_int huge) = PInf"
proof (rule round_to_double_overflow)
  have "(2::rat) ^ 1024 = 2 * 2 ^ 1023" by simp
  also have "\<dots> = of_int huge + of_int huge" by (simp add: huge_def)
  finally show "(2::rat) ^ 1024 \<le> of_int huge + of_int huge" by simp
qed

lemma round_twice_huge: "round_to_double (2 * of_int huge) = PInf"
  using round_two_huge by simp

lemma round_150_huge: "round_to_double (150 * of_int huge) = PInf"
proof (rule round_to_double_overflow)
  have "(2::rat) ^ 1024 = 2 * 2 ^ 1023" by simp
  also have "\<dots> \<le> 150 * 2 ^ 1023" by simp
  also have "\<dots> = 150 * of_int huge" by (simp add: huge_def)
  finally show "(2::rat) ^ 1024 \<le> 150 * of_int huge" .
qed

lemma float_of_int_two_huge: "float_of_int (huge + huge) = Inl OverflowError"
  using round_two_huge by (simp add: float_of_int_def)

lemma upper_AAPL: "upper ''AAPL'' = ''AAPL''"
  by code_simp

lemma price_AAPL: "get_share_price ''AAPL'' = Inr (Fin 150)"
  by code_simp

text \<open>
  Two deposits of \<open>2^1023\<close> make the cash balance infinite; a purchase of \<open>2^1023\<close>
  shares then costs infinity, passes the funds check and leaves the balance NaN.
\<close>

lemma deposit_huge_once:
  "deposit 7 (PyInt huge) (Account ''u'') =
     (Inr (), \<lparr>user_id = ''u'', cash_balance = Fin (of_int huge),
        total_deposits = Fin (of_int huge), holdings = [],
        transactions = [\<lparr>timestamp = 7, trans_type = ''DEPOSIT'', symbol = None,
          quantity = None, price_per_share = None, total_value = PyInt huge\<rparr>]\<rparr>)"
  using huge_rat_pos
  by (simp add: deposit_def Account_def record_transaction_def float_of_int_huge round_huge
        not_le)

lemma deposit_huge_twice:
  "cash_balance (run [Deposit 7 (PyInt huge), Deposit 8 (PyInt huge)] (Account ''u'')) = PInf
   \<and> holdings (run [Deposit 7 (PyInt huge), Deposit 8 (PyInt huge)] (Account ''u'')) = []"
  using huge_rat_pos
  by (simp add: deposit_def Account_def record_transaction_def float_of_int_huge
        round_huge round_twice_huge not_le)

lemma buy_huge:
  assumes "cash_balance acc = PInf \<or> cash_balance acc = NaN"
  shows "fst (buy_shares now ''AAPL'' (PyInt huge) acc) = Inr ()
       \<and> cash_balance (snd (buy_shares now ''AAPL'' (PyInt huge) acc)) = NaN
       \<and> holdings (snd (buy_shares now ''AAPL'' (PyInt huge) acc)) =
           AList.update ''AAPL'' (dict_get (holdings acc) ''AAPL'' 0 + huge) (holdings acc)"
  using assms huge_pos
  by (auto simp: buy_shares_def buy_shares_via_def upper_AAPL price_AAPL float_of_int_huge
        round_150_huge float_sub_def record_transaction_def Let_def)

lemma run_snoc: "run (cs @ [c]) acc = snd (perform c (run cs acc))"
  by (induction cs arbitrary: acc) simp_all

text \<open>
  Claim C1 as stated fails: the guards compare floats, and they let an infinite cost or
  amount through. After two deposits of the integer \<open>2^1023\<close> and a purchase of \<open>2^1023\<close>
  shares of AAPL, all finite arguments, the cash balance is NaN, and \<open>0 \<le> cash\<close> is
  false. The same happens after \<^verbatim>\<open>deposit(inf)\<close> and \<^verbatim>\<open>withdraw(inf)\<close>.
\<close>

theorem cash_balance_nan_counterexample:
  "cash_balance (run [Deposit 7 (PyInt huge), Deposit 8 (PyInt huge),
      Buy 9 ''AAPL'' (PyInt huge)] (Account ''u'')) = NaN
   \<and> \<not> float_le (Fin 0) (cash_balance (run [Deposit 7 (PyInt huge), Deposit 8 (PyInt huge),
      Buy 9 ''AAPL'' (PyInt huge)] (Account ''u'')))
   \<and> cash_balance (run [Deposit 7 (PyFloat PInf), Withdraw 8 (PyFloat PInf)] (Account ''u''))
      = NaN"
proof -
  let ?two = "run [Deposit 7 (PyInt huge), Deposit 8 (PyInt huge)] (Account ''u'')"
  have "run [Deposit 7 (PyInt huge), Deposit 8 (PyInt huge), Buy 9 ''AAPL'' (PyInt huge)]
          (Account ''u'') = snd (buy_shares 9 ''AAPL'' (PyInt huge) ?two)"
    using run_snoc [of "[Deposit 7 (PyInt huge), Deposit 8 (PyInt huge)]"
        "Buy 9 ''AAPL'' (PyInt huge)" "Account ''u''"] by simp
  moreover have "cash_balance (snd (buy_shares 9 ''AAPL'' (PyInt huge) ?two)) = NaN"
    using buy_huge [of ?two 9] deposit_huge_twice by simp
  moreover have
    "cash_balance (run [Deposit 7 (PyFloat PInf), Withdraw 8 (PyFloat PInf)] (Account ''u''))
      = NaN"
    by (simp add: deposit_def withdraw_def Account_def record_transaction_def float_sub_def)
  ultimately show ?thesis by simp
qed

end
